theory Spec2Isabelle
  imports Complex_Main "HOL-Library.AList" "HOL-Library.Sublist"
begin

section \<open>JavaScript values\<close>

subsection \<open>Numbers\<close>

text \<open>
  Sizes and byte counts are non-negative integers below \<open>2 ^ 53\<close>, hence \<open>nat\<close>.
  A quotient of two of them is an IEEE binary64 value. \<open>fl\<close> rounds an exact rational
  to the nearest binary64 value (53 significant bits, ties to the even significand); the
  values that occur here are far from the overflow and subnormal ranges, which \<open>fl\<close>
  leaves out. \<open>bitlen n\<close> is the number of binary digits of \<open>n\<close>, \<open>binexp x\<close> the
  exponent \<open>e\<close> with \<open>2 ^ e \<le> x < 2 ^ (e + 1)\<close> for \<open>x > 0\<close>.
\<close>

function bitlen :: "nat \<Rightarrow> nat" where
  "bitlen n = (if n = 0 then 0 else Suc (bitlen (n div 2)))"
  by pat_completeness auto
termination
  by (relation "measure id") auto

declare bitlen.simps [simp del]

definition pow2 :: "int \<Rightarrow> rat" where
  "pow2 e = (if 0 \<le> e then 2 ^ nat e else 1 / 2 ^ nat (- e))"

definition binexp :: "rat \<Rightarrow> int" where
  "binexp x =
     (if 1 \<le> x then int (bitlen (nat \<lfloor>x\<rfloor>)) - 1
      else let k = int (bitlen (nat \<lfloor>1 / x\<rfloor>)) - 1
           in if x = pow2 (- k) then - k else - k - 1)"

definition round_even :: "rat \<Rightarrow> int" where
  "round_even q = (let f = \<lfloor>q\<rfloor>; r = q - of_int f
                   in if r < 1 / 2 then f else if 1 / 2 < r then f + 1
                      else if even f then f else f + 1)"

definition fl :: "rat \<Rightarrow> rat" where
  "fl x = (if x = 0 then 0
           else let e = binexp \<bar>x\<bar> - 52
                in sgn x * of_int (round_even (\<bar>x\<bar> / pow2 e)) * pow2 e)"

text \<open>
  A number that a division may produce: a finite value, \<open>Infinity\<close> (a positive size
  divided by zero) or \<open>NaN\<close> (zero divided by zero). The operands of \<open>js_div\<close> are
  sizes, so no negative infinity arises.
\<close>

datatype jsnum = Finite rat | Infinity | NaN

definition js_div :: "nat \<Rightarrow> nat \<Rightarrow> jsnum" where
  "js_div a b = (if b = 0 then (if a = 0 then NaN else Infinity)
                 else Finite (fl (of_nat a / of_nat b)))"

fun js_mul :: "jsnum \<Rightarrow> nat \<Rightarrow> jsnum" where
  "js_mul (Finite x) c = Finite (fl (x * of_nat c))"
| "js_mul Infinity c = (if c = 0 then NaN else Infinity)"
| "js_mul NaN c = NaN"

fun js_sub :: "jsnum \<Rightarrow> nat \<Rightarrow> jsnum" where
  "js_sub (Finite x) c = Finite (fl (x - of_nat c))"
| "js_sub Infinity c = Infinity"
| "js_sub NaN c = NaN"

text \<open>\<open>Math.round\<close>: the nearest integer, a tie going up.\<close>

definition Math_round :: "rat \<Rightarrow> int" where
  "Math_round x = \<lfloor>x + 1 / 2\<rfloor>"

subsection \<open>Strings\<close>

text \<open>
  Strings are byte strings; \<open>toLowerCase\<close> maps the letters \<open>A\<close> to \<open>Z\<close> to
  \<open>a\<close> to \<open>z\<close> and leaves every other character as it is (format names, file
  extensions and paths are taken to be ASCII).
\<close>

definition toLowerCase_char :: "char \<Rightarrow> char" where
  "toLowerCase_char c =
     (let n = (of_char c :: nat) in if 65 \<le> n \<and> n \<le> 90 then char_of (n + 32) else c)"

definition toUpperCase_char :: "char \<Rightarrow> char" where
  "toUpperCase_char c =
     (let n = (of_char c :: nat) in if 97 \<le> n \<and> n \<le> 122 then char_of (n - 32) else c)"

definition toLowerCase :: "string \<Rightarrow> string" where
  "toLowerCase s = map toLowerCase_char s"

definition toUpperCase :: "string \<Rightarrow> string" where
  "toUpperCase s = map toUpperCase_char s"

definition endsWith :: "string \<Rightarrow> string \<Rightarrow> bool" where
  "endsWith s t = suffix t s"

text \<open>\<open>Array.prototype.join\<close> on strings.\<close>

fun join_strings :: "string \<Rightarrow> string list \<Rightarrow> string" where
  "join_strings sep [] = []"
| "join_strings sep [x] = x"
| "join_strings sep (x # y # ys) = x @ sep @ join_strings sep (y # ys)"

text \<open>Decimal digits of a natural number, as \<open>String(n)\<close> prints them.\<close>

definition digit :: "nat \<Rightarrow> char" where
  "digit d = ''0123456789'' ! (d mod 10)"

function show_nat :: "nat \<Rightarrow> string" where
  "show_nat n = (if n < 10 then [digit n] else show_nat (n div 10) @ [digit (n mod 10)])"
  by pat_completeness auto
termination
  by (relation "measure id") auto

declare show_nat.simps [simp del]

text \<open>
  \<open>Number.prototype.toFixed(2)\<close>: the sign, then the integer \<open>n\<close> for which
  \<open>n / 100\<close> is nearest to the absolute value (the larger one at a tie), printed with
  two decimals. \<open>Infinity\<close> and \<open>NaN\<close> print as their names.
\<close>

definition toFixed2_rat :: "rat \<Rightarrow> string" where
  "toFixed2_rat x =
     (let n = nat \<lfloor>\<bar>x\<bar> * 100 + 1 / 2\<rfloor>
      in (if x < 0 then ''-'' else []) @ show_nat (n div 100) @ ''.''
         @ [digit ((n mod 100) div 10), digit (n mod 10)])"

fun toFixed2 :: "jsnum \<Rightarrow> string" where
  "toFixed2 (Finite x) = toFixed2_rat x"
| "toFixed2 Infinity = ''Infinity''"
| "toFixed2 NaN = ''NaN''"

text \<open>The truthiness of an optional string, and \<open>n || d\<close> on an optional number.\<close>

definition truthy_string :: "string option \<Rightarrow> bool" where
  "truthy_string s = (case s of None \<Rightarrow> False | Some t \<Rightarrow> t \<noteq> [])"

definition or_number :: "nat option \<Rightarrow> nat \<Rightarrow> nat" where
  "or_number n d = (case n of None \<Rightarrow> d | Some k \<Rightarrow> if k = 0 then d else k)"

section \<open>Results and progress events (utils/compression-utils.ts)\<close>

text \<open>
  A thrown value is an \<open>Error\<close> object: its message, its \<open>code\<close> when the runtime
  set one, and its stack text.
\<close>

datatype js_error = Error (message: string) (code: "string option") (stack: "string option")

datatype json = JNumber nat | JString string | JBoolean bool

record Content =
  content_text :: string
  content_data :: "(string \<times> json) list"

record ErrorInfo =
  error_message :: string
  error_details :: "string option"

record MCPResult =
  isError :: bool
  content :: "Content option"
  error :: "ErrorInfo option"

type_synonym OperationResult = MCPResult

record ProgressInfo =
  bytesProcessed :: nat
  totalBytes :: "nat option"
  percentComplete :: "int option"
  stage :: string
  detail :: "string option"

definition createSuccessResult :: "string \<Rightarrow> (string \<times> json) list \<Rightarrow> MCPResult" where
  "createSuccessResult msg data =
     \<lparr>isError = False,
      content = Some \<lparr>content_text = msg, content_data = data\<rparr>,
      error = None\<rparr>"

definition createErrorResult :: "string \<Rightarrow> string option \<Rightarrow> MCPResult" where
  "createErrorResult msg details =
     \<lparr>isError = True,
      content = None,
      error = Some \<lparr>error_message = msg, error_details = details\<rparr>\<rparr>"

definition formatCompressionRatio :: "nat \<Rightarrow> nat \<Rightarrow> string" where
  "formatCompressionRatio originalSize compressedSize =
     (let ratio = js_mul (js_div compressedSize originalSize) 100
      in toFixed2 ratio @ ''%'')"

definition formatProgress ::
  "nat \<Rightarrow> nat option \<Rightarrow> string option \<Rightarrow> string option \<Rightarrow> ProgressInfo" where
  "formatProgress bytes totalB stg det =
     (let progress = \<lparr>bytesProcessed = bytes, totalBytes = None, percentComplete = None,
                       stage = (if truthy_string stg then the stg else ''processing''),
                       detail = None\<rparr>;
          progress1 =
            (case totalB of
               Some t \<Rightarrow>
                 if t \<noteq> 0 then
                   progress\<lparr>totalBytes := Some t,
                            percentComplete :=
                              Some (min (Math_round (fl (fl (of_nat bytes / of_nat t) * 100))) 100)\<rparr>
                 else progress
             | None \<Rightarrow> progress);
          progress2 = (if truthy_string det then progress1\<lparr>detail := det\<rparr> else progress1)
      in progress2)"

text \<open>
  The expansion figures of the stand-alone \<open>unzip\<close> tool (\<open>tools/zip.ts\<close>, lines
  366 to 369): \<open>((extracted / compressed) - 1) * 100\<close>, printed with a leading
  \<open>+\<close> when positive.
\<close>

definition extractionRatio :: "nat \<Rightarrow> nat \<Rightarrow> jsnum" where
  "extractionRatio extractedSize fileSize = js_mul (js_sub (js_div extractedSize fileSize) 1) 100"

definition js_positive :: "jsnum \<Rightarrow> bool" where
  "js_positive x = (case x of Finite r \<Rightarrow> 0 < r | Infinity \<Rightarrow> True | NaN \<Rightarrow> False)"

definition extractionRatioFormatted :: "nat \<Rightarrow> nat \<Rightarrow> string" where
  "extractionRatioFormatted extractedSize fileSize =
     (let r = extractionRatio extractedSize fileSize
      in if js_positive r then ''+'' @ toFixed2 r @ ''%'' else toFixed2 r @ ''%'')"

section \<open>Buffers and the bounded in-memory sink\<close>

text \<open>
  A Node \<open>Buffer\<close> is a sequence of bytes; a byte is a \<open>char\<close>, so a buffer is a
  \<open>char list\<close> and literals can be written as strings.
\<close>

type_synonym buffer = "char list"

text \<open>
  \<open>Buffer.concat(list, totalLength)\<close>: the buffers of \<open>list\<close> one after the other, cut
  at \<open>totalLength\<close> bytes, filled with zero bytes when the list holds fewer.
\<close>

definition Buffer_concat :: "buffer list \<Rightarrow> nat \<Rightarrow> buffer" where
  "Buffer_concat list n =
     take n (concat list) @ replicate (n - length (concat list)) (CHR 0x00)"

text \<open>
  \<open>class MemoryWritable\<close> of \<open>tools/zip.ts\<close>. The three private fields are the state;
  \<open>maxLength\<close> is the validated \<open>previewLength\<close>, a positive integer, hence a \<open>nat\<close>.
  \<open>_write\<close> takes the state and returns the new one (the callback is always called
  without an error, so there is no failure branch).
\<close>

record MemoryWritable =
  chunks :: "buffer list"
  totalLength :: nat
  maxLength :: nat

definition MemoryWritable_new :: "nat \<Rightarrow> MemoryWritable" where
  "MemoryWritable_new n = \<lparr>chunks = [], totalLength = 0, maxLength = n\<rparr>"

definition MemoryWritable_write :: "MemoryWritable \<Rightarrow> buffer \<Rightarrow> MemoryWritable" where
  "MemoryWritable_write s chunk =
     (if totalLength s < maxLength s then
        let remainingLength = maxLength s - totalLength s;
            chunk' = (if length chunk > remainingLength
                      then take remainingLength chunk else chunk)
        in s\<lparr>chunks := chunks s @ [chunk'],
              totalLength := totalLength s + length chunk'\<rparr>
      else s)"

definition getContent :: "MemoryWritable \<Rightarrow> buffer" where
  "getContent s = Buffer_concat (chunks s) (totalLength s)"

text \<open>A sequence of \<open>_write\<close> calls, in order, on a fresh sink.\<close>

definition MemoryWritable_run :: "nat \<Rightarrow> buffer list \<Rightarrow> MemoryWritable" where
  "MemoryWritable_run n ws = foldl MemoryWritable_write (MemoryWritable_new n) ws"

section \<open>The Node runtime\<close>

text \<open>
  The file system, the \<open>path\<close> module, the streams and zlib are not code of the
  repository. They are the fields of a record \<open>rt\<close> that every function of the
  repository takes; \<open>'w\<close> is the state of the world (the file system). A primitive
  that can fail returns the error it throws or rejects with.
  \<^item> \<open>fs_access rt w p\<close>: \<open>fs.access(p, F_OK)\<close>, \<open>None\<close> when it resolves.
  \<^item> \<open>fs_stat rt w p\<close>: \<open>fs.stat(p)\<close>.
  \<^item> \<open>fs_mkdir rt w p\<close>: \<open>fs.mkdir(p, {recursive: true})\<close>, with the world after it.
  \<^item> \<open>createGzip rt level\<close>: the error \<open>createGzip({level})\<close> throws on a level it
    refuses, if any.
  \<^item> \<open>gzip_pipeline rt w src level tgt\<close>:
    \<open>pipeline(createReadStream(src), createGzip({level}), createWriteStream(tgt))\<close>: the
    lengths of the chunks the read stream hands to its \<open>data\<close> listeners, in order,
    the error the pipeline rejects with, if any, and the world after it;
    \<open>gunzip_pipeline\<close> likewise with \<open>createGunzip()\<close>.
  \<^item> \<open>gunzip_stream rt w src\<close>: the chunks that
    \<open>createReadStream(src)\<close> piped into \<open>createGunzip()\<close> emits, in order, when nobody
    destroys the streams, and the error that ends them, if any.
  \<^item> \<open>toString_utf8 rt buf start end\<close>: \<open>buf.toString('utf8', start, end)\<close>, the
    text that the bytes of \<open>buf\<close> from \<open>start\<close> up to \<open>end\<close> decode to; a byte sequence
    that is not valid UTF-8, such as a character cut in the middle, decodes to the
    replacement character.
  \<^item> \<open>new_stack rt msg\<close>: the stack text of \<open>new Error(msg)\<close>.
\<close>

type_synonym path = string

record Stats =
  st_isFile :: bool
  st_isDirectory :: bool
  st_size :: nat

record 'w runtime =
  fs_access :: "'w \<Rightarrow> path \<Rightarrow> js_error option"
  fs_stat :: "'w \<Rightarrow> path \<Rightarrow> js_error + Stats"
  fs_mkdir :: "'w \<Rightarrow> path \<Rightarrow> js_error option \<times> 'w"
  path_normalize :: "path \<Rightarrow> path"
  path_dirname :: "path \<Rightarrow> path"
  path_basename :: "path \<Rightarrow> path"
  path_extname :: "path \<Rightarrow> path"
  path_join :: "path \<Rightarrow> path \<Rightarrow> path"
  new_stack :: "string \<Rightarrow> string option"
  createGzip :: "nat \<Rightarrow> js_error option"
  gzip_pipeline :: "'w \<Rightarrow> path \<Rightarrow> nat \<Rightarrow> path \<Rightarrow> nat list \<times> js_error option \<times> 'w"
  gunzip_pipeline :: "'w \<Rightarrow> path \<Rightarrow> path \<Rightarrow> nat list \<times> js_error option \<times> 'w"
  gunzip_stream :: "'w \<Rightarrow> path \<Rightarrow> buffer list \<times> js_error option"
  toString_utf8 :: "buffer \<Rightarrow> nat \<Rightarrow> nat \<Rightarrow> string"

definition new_Error :: "'w runtime \<Rightarrow> string \<Rightarrow> js_error" where
  "new_Error rt msg = Error msg None (new_stack rt msg)"

section \<open>CompressionUtils (utils/compression-utils.ts)\<close>

text \<open>\<open>String.prototype.includes\<close>: the second string occurs in the first.\<close>

fun includes_str :: "string \<Rightarrow> string \<Rightarrow> bool" where
  "includes_str [] t = (t = [])"
| "includes_str (c # cs) t = (prefix t (c # cs) \<or> includes_str cs t)"

definition normalizePath :: "'w runtime \<Rightarrow> path \<Rightarrow> js_error + path" where
  "normalizePath rt filePath =
     (let normalized = path_normalize rt filePath
      in if includes_str normalized ''..''
         then Inl (new_Error rt (''Path traversal detected. Path cannot contain ''
                                  @ [CHR 0x22] @ ''..'' @ [CHR 0x22]))
         else Inr normalized)"

definition fileExists :: "'w runtime \<Rightarrow> 'w \<Rightarrow> path \<Rightarrow> bool" where
  "fileExists rt w filePath = (case fs_access rt w filePath of None \<Rightarrow> True | Some e \<Rightarrow> False)"

definition isFile :: "'w runtime \<Rightarrow> 'w \<Rightarrow> path \<Rightarrow> bool" where
  "isFile rt w filePath = (case fs_stat rt w filePath of Inr stats \<Rightarrow> st_isFile stats | Inl e \<Rightarrow> False)"

definition isDirectory :: "'w runtime \<Rightarrow> 'w \<Rightarrow> path \<Rightarrow> bool" where
  "isDirectory rt w dirPath =
     (case fs_stat rt w dirPath of Inr stats \<Rightarrow> st_isDirectory stats | Inl e \<Rightarrow> False)"

text \<open>
  \<open>ensureDir\<close>: the \<open>try\<close> block checks that the path exists and is a directory and
  throws otherwise; the \<open>catch\<close> block creates the directory, whatever was thrown.
\<close>

definition ensureDir_try :: "'w runtime \<Rightarrow> 'w \<Rightarrow> path \<Rightarrow> js_error option" where
  "ensureDir_try rt w dirPath =
     (case fs_access rt w dirPath of
        Some e \<Rightarrow> Some e
      | None \<Rightarrow>
          if \<not> isDirectory rt w dirPath
          then Some (new_Error rt (''Path exists but is not a directory: '' @ dirPath))
          else None)"

definition ensureDir :: "'w runtime \<Rightarrow> 'w \<Rightarrow> path \<Rightarrow> js_error option \<times> 'w" where
  "ensureDir rt w dirPath =
     (case ensureDir_try rt w dirPath of
        None \<Rightarrow> (None, w)
      | Some e \<Rightarrow> fs_mkdir rt w dirPath)"

definition getFileSize :: "'w runtime \<Rightarrow> 'w \<Rightarrow> path \<Rightarrow> js_error + nat" where
  "getFileSize rt w filePath =
     (case fs_stat rt w filePath of
        Inr stats \<Rightarrow> Inr (st_size stats)
      | Inl e \<Rightarrow> Inl (new_Error rt (''Failed to get file size: '' @ message e)))"

definition resolveOutputPath ::
  "'w runtime \<Rightarrow> path \<Rightarrow> string option \<Rightarrow> string option \<Rightarrow> string option \<Rightarrow> path" where
  "resolveOutputPath rt sourcePath outputDir outputFileName defaultExt =
     (let sourceDir = path_dirname rt sourcePath;
          targetDir = (if truthy_string outputDir then the outputDir else sourceDir);
          outputFileName' =
            (if \<not> truthy_string outputFileName then
               let sourceBaseName = path_basename rt sourcePath
               in if truthy_string defaultExt then sourceBaseName @ the defaultExt
                  else sourceBaseName
             else the outputFileName)
      in path_join rt targetDir outputFileName')"

definition getFileExtension :: "'w runtime \<Rightarrow> path \<Rightarrow> string" where
  "getFileExtension rt filePath =
     (let basename = path_basename rt filePath
      in if endsWith basename ''.tar.gz'' then ''.tar.gz'' else path_extname rt filePath)"

definition removeExtension :: "'w runtime \<Rightarrow> path \<Rightarrow> string option \<Rightarrow> string" where
  "removeExtension rt filePath extension =
     (let ext = (if truthy_string extension then the extension else getFileExtension rt filePath)
      in if ext \<noteq> [] \<and> endsWith filePath ext
         then take (length filePath - length ext) filePath
         else filePath)"

section \<open>The handler interface (interfaces/compression-handler.ts)\<close>

text \<open>
  The option bags; their fields carry a prefix because \<open>outputDirectory\<close> occurs in
  two of them and in the request.
\<close>

record CompressionOptions =
  co_compressionLevel :: "nat option"
  co_outputDirectory :: "string option"
  co_outputFileName :: "string option"

record DecompressionOptions =
  do_stripComponents :: "nat option"
  do_outputDirectory :: "string option"

record ListOptions =
  lo_previewLength :: "nat option"

text \<open>
  An operation returns a promise. Its outcome is the value the promise settles with
  (\<open>Inl\<close> a rejection, \<open>Inr\<close> the result), the progress events handed to the callback,
  in order, and the world afterwards. The \<open>bool\<close> argument says whether a progress
  callback was passed.
\<close>

type_synonym 'w outcome = "(js_error + OperationResult) \<times> ProgressInfo list \<times> 'w"

record 'w CompressionHandler =
  getSupportedExtensions :: "string list"
  getFormatName :: string
  isFormatValid :: "path \<Rightarrow> bool"
  compress :: "path \<Rightarrow> path \<Rightarrow> CompressionOptions \<Rightarrow> bool \<Rightarrow> 'w \<Rightarrow> 'w outcome"
  decompress :: "path \<Rightarrow> path \<Rightarrow> DecompressionOptions \<Rightarrow> bool \<Rightarrow> 'w \<Rightarrow> 'w outcome"
  listContents :: "path \<Rightarrow> ListOptions \<Rightarrow> bool \<Rightarrow> 'w \<Rightarrow> 'w outcome"

section \<open>The format registry\<close>

text \<open>
  A JavaScript \<open>Map\<close> keeps its keys in insertion order; \<open>set\<close> on a key that is
  present replaces the value in place. That is an association list with
  \<open>AList.update\<close>.
\<close>

record 'w FormatRegistry =
  handlers :: "(string \<times> 'w CompressionHandler) list"
  extensionMap :: "(string \<times> 'w CompressionHandler) list"

definition FormatRegistry_new :: "'w FormatRegistry" where
  "FormatRegistry_new = \<lparr>handlers = [], extensionMap = []\<rparr>"

definition register ::
  "'w FormatRegistry \<Rightarrow> string \<Rightarrow> 'w CompressionHandler \<Rightarrow> 'w FormatRegistry" where
  "register r formatName handler =
     \<lparr>handlers = AList.update (toLowerCase formatName) handler (handlers r),
      extensionMap =
        foldl (\<lambda>m ext. AList.update (toLowerCase ext) handler m) (extensionMap r)
          (getSupportedExtensions handler)\<rparr>"

definition getHandlerByFormat ::
  "'w FormatRegistry \<Rightarrow> string \<Rightarrow> 'w CompressionHandler option" where
  "getHandlerByFormat r formatName = map_of (handlers r) (toLowerCase formatName)"

definition getHandlerByExtension ::
  "'w FormatRegistry \<Rightarrow> string \<Rightarrow> 'w CompressionHandler option" where
  "getHandlerByExtension r extension =
     (let ext = toLowerCase extension
      in if endsWith ext ''.tar.gz'' \<and> map_of (extensionMap r) ''.tar.gz'' \<noteq> None
         then map_of (extensionMap r) ''.tar.gz''
         else map_of (extensionMap r) ext)"

definition getHandlerForFile ::
  "'w FormatRegistry \<Rightarrow> path \<Rightarrow> 'w CompressionHandler option" where
  "getHandlerForFile r filePath =
     find (\<lambda>handler. isFormatValid handler filePath) (map snd (handlers r))"

definition getAllFormats :: "'w FormatRegistry \<Rightarrow> string list" where
  "getAllFormats r = map fst (handlers r)"

definition getAllExtensions :: "'w FormatRegistry \<Rightarrow> string list" where
  "getAllExtensions r = map fst (extensionMap r)"

definition getHandlerCount :: "'w FormatRegistry \<Rightarrow> nat" where
  "getHandlerCount r = length (handlers r)"

section \<open>GzipHandler (handlers/gzip-handler.ts)\<close>

definition GzipHandler_isFormatValid :: "path \<Rightarrow> bool" where
  "GzipHandler_isFormatValid filePath = endsWith (toLowerCase filePath) ''.gz''"

text \<open>
  The \<open>data\<close> listener of the source stream in \<open>compress\<close> and \<open>decompress\<close>: it adds
  the length of each chunk to \<open>processedBytes\<close> and reports.
\<close>

fun source_data_events :: "nat \<Rightarrow> string \<Rightarrow> nat \<Rightarrow> nat list \<Rightarrow> ProgressInfo list" where
  "source_data_events sourceSize stg processedBytes [] = []"
| "source_data_events sourceSize stg processedBytes (len # rest) =
     formatProgress (processedBytes + len) (Some sourceSize) (Some stg) None
       # source_data_events sourceSize stg (processedBytes + len) rest"

text \<open>
  The body of the \<open>try\<close> block of \<open>compress\<close>. \<open>Inl\<close> is an exception thrown inside
  the block, \<open>Inr\<close> the value it returns.
\<close>

definition GzipHandler_compress_try ::
  "'w runtime \<Rightarrow> path \<Rightarrow> path \<Rightarrow> CompressionOptions \<Rightarrow> bool \<Rightarrow> 'w \<Rightarrow> 'w outcome" where
  "GzipHandler_compress_try rt sourcePath targetPath options progressCallback w =
     (if \<not> fileExists rt w sourcePath then
        (Inr (createErrorResult (''Source file does not exist: '' @ sourcePath) None), [], w)
      else if \<not> isFile rt w sourcePath then
        (Inr (createErrorResult (''Source path is not a file: '' @ sourcePath)
               (Some ''Please use a regular file for gzip compression.'')), [], w)
      else
        case getFileSize rt w sourcePath of
          Inl e \<Rightarrow> (Inl e, [], w)
        | Inr sourceSize \<Rightarrow>
            let targetDir = path_dirname rt targetPath
            in case ensureDir rt w targetDir of
                 (Some e, w1) \<Rightarrow> (Inl e, [], w1)
               | (None, w1) \<Rightarrow>
                   let compressionLevel = or_number (co_compressionLevel options) 6
                   in case createGzip rt compressionLevel of
                        Some e \<Rightarrow> (Inl e, [], w1)
                      | None \<Rightarrow>
                          case gzip_pipeline rt w1 sourcePath compressionLevel targetPath of
                            (chunkLengths, failure, w2) \<Rightarrow>
                              let events =
                                    (if progressCallback then
                                       formatProgress 0 (Some sourceSize) (Some ''compressing'') None
                                         # source_data_events sourceSize ''compressing'' 0 chunkLengths
                                     else [])
                              in case failure of
                                   Some e \<Rightarrow> (Inl e, events, w2)
                                 | None \<Rightarrow>
                                     case getFileSize rt w2 targetPath of
                                       Inl e \<Rightarrow> (Inl e, events, w2)
                                     | Inr compressedSize \<Rightarrow>
                                         let ratio = formatCompressionRatio sourceSize compressedSize
                                         in (Inr (createSuccessResult
                                                   (''Successfully compressed file to '' @ targetPath)
                                                   [(''originalSize'', JNumber sourceSize),
                                                    (''compressedSize'', JNumber compressedSize),
                                                    (''compressionRatio'', JString ratio),
                                                    (''sourcePath'', JString sourcePath),
                                                    (''targetPath'', JString targetPath)]),
                                             events, w2))"

text \<open>A \<open>catch\<close> clause: what was thrown becomes an error result.\<close>

definition catch_all :: "string \<Rightarrow> 'w outcome \<Rightarrow> 'w outcome" where
  "catch_all pre out =
     (case out of
        (Inl e, events, w) \<Rightarrow> (Inr (createErrorResult (pre @ message e) (stack e)), events, w)
      | (Inr r, events, w) \<Rightarrow> (Inr r, events, w))"

definition GzipHandler_compress ::
  "'w runtime \<Rightarrow> path \<Rightarrow> path \<Rightarrow> CompressionOptions \<Rightarrow> bool \<Rightarrow> 'w \<Rightarrow> 'w outcome" where
  "GzipHandler_compress rt sourcePath targetPath options progressCallback w =
     catch_all ''Error compressing file: ''
       (GzipHandler_compress_try rt sourcePath targetPath options progressCallback w)"

text \<open>
  The file \<open>decompress\<close> writes: the base name of the source without a final
  \<open>.gz\<close>, in the target directory (lines 141 to 149).
\<close>

definition decompress_targetPath :: "'w runtime \<Rightarrow> path \<Rightarrow> path \<Rightarrow> path" where
  "decompress_targetPath rt sourcePath targetDir =
     (let sourceBaseName = path_basename rt sourcePath;
          targetFileName =
            (if endsWith sourceBaseName ''.gz''
             then take (length sourceBaseName - 3) sourceBaseName
             else sourceBaseName)
      in path_join rt targetDir targetFileName)"

definition GzipHandler_decompress_try ::
  "'w runtime \<Rightarrow> path \<Rightarrow> path \<Rightarrow> DecompressionOptions \<Rightarrow> bool \<Rightarrow> 'w \<Rightarrow> 'w outcome" where
  "GzipHandler_decompress_try rt sourcePath targetDir options progressCallback w =
     (if \<not> fileExists rt w sourcePath then
        (Inr (createErrorResult (''Source file does not exist: '' @ sourcePath) None), [], w)
      else if \<not> isFile rt w sourcePath then
        (Inr (createErrorResult (''Source path is not a file: '' @ sourcePath) None), [], w)
      else
        case ensureDir rt w targetDir of
          (Some e, w1) \<Rightarrow> (Inl e, [], w1)
        | (None, w1) \<Rightarrow>
            let targetPath = decompress_targetPath rt sourcePath targetDir
            in case getFileSize rt w1 sourcePath of
                 Inl e \<Rightarrow> (Inl e, [], w1)
               | Inr sourceSize \<Rightarrow>
                   case gunzip_pipeline rt w1 sourcePath targetPath of
                     (chunkLengths, failure, w2) \<Rightarrow>
                       let events =
                             (if progressCallback then
                                formatProgress 0 (Some sourceSize) (Some ''decompressing'') None
                                  # source_data_events sourceSize ''decompressing'' 0 chunkLengths
                              else [])
                       in case failure of
                            Some e \<Rightarrow> (Inl e, events, w2)
                          | None \<Rightarrow>
                              case getFileSize rt w2 targetPath of
                                Inl e \<Rightarrow> (Inl e, events, w2)
                              | Inr decompressedSize \<Rightarrow>
                                  (Inr (createSuccessResult
                                         (''Successfully decompressed file to '' @ targetPath)
                                         [(''compressedSize'', JNumber sourceSize),
                                          (''decompressedSize'', JNumber decompressedSize),
                                          (''expansionRatio'',
                                             JString (formatCompressionRatio sourceSize decompressedSize)),
                                          (''sourcePath'', JString sourcePath),
                                          (''targetPath'', JString targetPath)]),
                                   events, w2))"

definition GzipHandler_decompress ::
  "'w runtime \<Rightarrow> path \<Rightarrow> path \<Rightarrow> DecompressionOptions \<Rightarrow> bool \<Rightarrow> 'w \<Rightarrow> 'w outcome" where
  "GzipHandler_decompress rt sourcePath targetDir options progressCallback w =
     catch_all ''Error decompressing file: ''
       (GzipHandler_decompress_try rt sourcePath targetDir options progressCallback w)"

text \<open>
  The \<open>data\<close> listener of the gunzip stream in \<open>listContents\<close>, run over the chunks the
  stream emits: it stores the chunk, adds its length to \<open>totalLength\<close>, destroys both
  streams once \<open>totalLength >= previewLength\<close> (no chunk arrives after that) and reports.
  The state is the chunks stored, \<open>totalLength\<close>, whether the streams were destroyed, and
  the events reported.
\<close>

fun gunzip_on_data ::
  "nat \<Rightarrow> nat \<Rightarrow> bool \<Rightarrow> buffer list \<Rightarrow> nat \<Rightarrow> buffer list
     \<Rightarrow> buffer list \<times> nat \<times> bool \<times> ProgressInfo list" where
  "gunzip_on_data previewLength sourceSize progressCallback chunks0 totalLength0 [] =
     (chunks0, totalLength0, False, [])"
| "gunzip_on_data previewLength sourceSize progressCallback chunks0 totalLength0 (chunk # rest) =
     (let chunks' = chunks0 @ [chunk];
          totalLength' = totalLength0 + length chunk;
          event = (if progressCallback
                   then [formatProgress (min totalLength' sourceSize) (Some sourceSize) (Some ''reading'') None]
                   else [])
      in if totalLength' \<ge> previewLength then (chunks', totalLength', True, event)
         else case gunzip_on_data previewLength sourceSize progressCallback chunks' totalLength' rest of
                (s, t, d, events) \<Rightarrow> (s, t, d, event @ events))"

text \<open>
  The inner \<open>try\<close> of \<open>listContents\<close>: destroyed streams make the pipeline reject
  with code \<open>ERR_STREAM_PREMATURE_CLOSE\<close>, which the \<open>catch\<close> ignores; any other
  rejection is thrown again.
\<close>

definition premature_close :: "'w runtime \<Rightarrow> js_error" where
  "premature_close rt =
     Error ''Premature close'' (Some ''ERR_STREAM_PREMATURE_CLOSE'') (new_stack rt ''Premature close'')"

definition list_pipeline_rethrown :: "js_error option \<Rightarrow> js_error option" where
  "list_pipeline_rethrown failure =
     (case failure of
        None \<Rightarrow> None
      | Some e \<Rightarrow> if code e \<noteq> Some ''ERR_STREAM_PREMATURE_CLOSE'' then Some e else None)"

definition GzipHandler_listContents_try ::
  "'w runtime \<Rightarrow> path \<Rightarrow> ListOptions \<Rightarrow> bool \<Rightarrow> 'w \<Rightarrow> 'w outcome" where
  "GzipHandler_listContents_try rt sourcePath options progressCallback w =
     (if \<not> fileExists rt w sourcePath then
        (Inr (createErrorResult (''Source file does not exist: '' @ sourcePath) None), [], w)
      else if \<not> isFile rt w sourcePath then
        (Inr (createErrorResult (''Source path is not a file: '' @ sourcePath) None), [], w)
      else if \<not> GzipHandler_isFormatValid sourcePath then
        (Inr (createErrorResult (''File is not a valid gzip file: '' @ sourcePath)
               (Some ''File must have .gz extension'')), [], w)
      else
        case getFileSize rt w sourcePath of
          Inl e \<Rightarrow> (Inl e, [], w)
        | Inr sourceSize \<Rightarrow>
            let previewLength = or_number (lo_previewLength options) 1000;
                first = (if progressCallback
                         then [formatProgress 0 (Some sourceSize) (Some ''reading'') None] else [])
            in case gunzip_stream rt w sourcePath of
                 (emitted, streamError) \<Rightarrow>
                   case gunzip_on_data previewLength sourceSize progressCallback [] 0 emitted of
                     (chunks1, totalLength1, destroyed, events) \<Rightarrow>
                       let failure = (if destroyed then Some (premature_close rt) else streamError)
                       in case list_pipeline_rethrown failure of
                            Some e \<Rightarrow> (Inl e, first @ events, w)
                          | None \<Rightarrow>
                              let buffer = Buffer_concat chunks1 totalLength1;
                                  previewContent =
                                    toString_utf8 rt buffer 0 (min previewLength totalLength1);
                                  originalFileName =
                                    removeExtension rt (path_basename rt sourcePath) (Some ''.gz'');
                                  final = (if progressCallback
                                           then [formatProgress sourceSize (Some sourceSize)
                                                   (Some ''complete'') None]
                                           else [])
                              in (Inr (createSuccessResult
                                        (''Content preview of '' @ sourcePath)
                                        [(''fileName'', JString originalFileName),
                                         (''compressedSize'', JNumber sourceSize),
                                         (''previewSize'', JNumber totalLength1),
                                         (''preview'', JString previewContent),
                                         (''isTruncated'', JBoolean (totalLength1 > previewLength))]),
                                  first @ events @ final, w))"

definition GzipHandler_listContents ::
  "'w runtime \<Rightarrow> path \<Rightarrow> ListOptions \<Rightarrow> bool \<Rightarrow> 'w \<Rightarrow> 'w outcome" where
  "GzipHandler_listContents rt sourcePath options progressCallback w =
     catch_all ''Error reading compressed file: ''
       (GzipHandler_listContents_try rt sourcePath options progressCallback w)"

definition GzipHandler :: "'w runtime \<Rightarrow> 'w CompressionHandler" where
  "GzipHandler rt =
     \<lparr>getSupportedExtensions = [''.gz''],
      getFormatName = ''gzip'',
      isFormatValid = GzipHandler_isFormatValid,
      compress = GzipHandler_compress rt,
      decompress = GzipHandler_decompress rt,
      listContents = GzipHandler_listContents rt\<rparr>"

section \<open>The unified tool (tools/unified-compression.ts)\<close>

text \<open>
  The request, after the schema has validated it: \<open>operation\<close> is one of the three
  values of the enumeration, so the \<open>default\<close> branch of the \<open>switch\<close> has no input.
\<close>

datatype OperationType = OpCompress | OpDecompress | OpList

fun operation_name :: "OperationType \<Rightarrow> string" where
  "operation_name OpCompress = ''compress''"
| "operation_name OpDecompress = ''decompress''"
| "operation_name OpList = ''list''"

record params =
  operation :: OperationType
  format :: string
  sourcePath :: string
  outputDirectory :: "string option"
  outputFileName :: "string option"
  compressionLevel :: "nat option"
  stripComponents :: "nat option"
  previewLength :: "nat option"

text \<open>
  How the \<open>try\<close> block of \<open>execute\<close> ends: an exception thrown inside it, which the
  \<open>catch\<close> clause receives, or a \<open>return\<close>. The three handler calls are returned
  without \<open>await\<close>, so what is returned there is the handler's promise as it settles
  (\<open>Inl\<close> a rejection), and the \<open>catch\<close> clause does not see it.
\<close>

datatype 'a completion = Thrown js_error | Returned 'a

type_synonym 'w dispatch = "(js_error + MCPResult) completion \<times> 'w"

definition settled :: "'w outcome \<Rightarrow> 'w dispatch" where
  "settled out = (case out of (r, events, w) \<Rightarrow> (Returned r, w))"

text \<open>
  The target of a \<open>compress\<close> request: the handler's first extension is the default
  extension (lines 74 to 84).
\<close>

definition compress_targetPath :: "'w runtime \<Rightarrow> 'w CompressionHandler \<Rightarrow> params \<Rightarrow> path" where
  "compress_targetPath rt handler p =
     (let extensions = getSupportedExtensions handler;
          defaultExt = (if length extensions > 0 then hd extensions else [])
      in resolveOutputPath rt (sourcePath p) (outputDirectory p) (outputFileName p)
           (Some defaultExt))"

definition execute_compress ::
  "'w runtime \<Rightarrow> 'w CompressionHandler \<Rightarrow> params \<Rightarrow> 'w \<Rightarrow> 'w dispatch" where
  "execute_compress rt handler p w =
     (let isDir = isDirectory rt w (sourcePath p);
          isFil = isFile rt w (sourcePath p)
      in if \<not> isDir \<and> \<not> isFil then
           (Returned (Inr (createErrorResult
              (''Source path must be a file or directory: '' @ sourcePath p) None)), w)
         else
           let targetPath = compress_targetPath rt handler p
           in if fileExists rt w targetPath then
                (Returned (Inr (createErrorResult
                   (''Output file already exists: '' @ targetPath)
                   (Some ''Please specify a different output file name or directory''))), w)
              else
                settled (compress handler (sourcePath p) targetPath
                   \<lparr>co_compressionLevel = Some (or_number (compressionLevel p) 6),
                    co_outputDirectory = None, co_outputFileName = None\<rparr> False w))"

definition execute_decompress ::
  "'w runtime \<Rightarrow> 'w CompressionHandler \<Rightarrow> params \<Rightarrow> 'w \<Rightarrow> 'w dispatch" where
  "execute_decompress rt handler p w =
     (if \<not> isFile rt w (sourcePath p) then
        (Returned (Inr (createErrorResult
           (''Source path must be a file: '' @ sourcePath p) None)), w)
      else if \<not> isFormatValid handler (sourcePath p) then
        (Returned (Inr (createErrorResult
           (''File is not a valid '' @ format p @ '' file: '' @ sourcePath p)
           (Some (''Expected file extensions: ''
                   @ join_strings '', '' (getSupportedExtensions handler))))), w)
      else
        let targetDir = (if truthy_string (outputDirectory p) then the (outputDirectory p)
                         else path_dirname rt (sourcePath p))
        in case ensureDir rt w targetDir of
             (Some e, w1) \<Rightarrow> (Thrown e, w1)
           | (None, w1) \<Rightarrow>
               settled (decompress handler (sourcePath p) targetDir
                  \<lparr>do_stripComponents = Some (or_number (stripComponents p) 0),
                   do_outputDirectory = None\<rparr> False w1))"

definition execute_list ::
  "'w runtime \<Rightarrow> 'w CompressionHandler \<Rightarrow> params \<Rightarrow> 'w \<Rightarrow> 'w dispatch" where
  "execute_list rt handler p w =
     (if \<not> isFile rt w (sourcePath p) then
        (Returned (Inr (createErrorResult
           (''Source path must be a file: '' @ sourcePath p) None)), w)
      else if \<not> isFormatValid handler (sourcePath p) then
        (Returned (Inr (createErrorResult
           (''File is not a valid '' @ format p @ '' file: '' @ sourcePath p)
           (Some (''Expected file extensions: ''
                   @ join_strings '', '' (getSupportedExtensions handler))))), w)
      else
        settled (listContents handler (sourcePath p)
           \<lparr>lo_previewLength = Some (or_number (previewLength p) 1000)\<rparr> False w))"

definition execute_try ::
  "'w runtime \<Rightarrow> 'w FormatRegistry \<Rightarrow> params \<Rightarrow> 'w \<Rightarrow> 'w dispatch" where
  "execute_try rt registry p w =
     (case getHandlerByFormat registry (format p) of
        None \<Rightarrow>
          (Returned (Inr (createErrorResult
             (''Unsupported format: '' @ format p)
             (Some (''Supported formats are: '' @ join_strings '', '' (getAllFormats registry))))), w)
      | Some handler \<Rightarrow>
          if \<not> fileExists rt w (sourcePath p) then
            (Returned (Inr (createErrorResult
               (''Source path does not exist: '' @ sourcePath p) None)), w)
          else
            case operation p of
              OpCompress \<Rightarrow> execute_compress rt handler p w
            | OpDecompress \<Rightarrow> execute_decompress rt handler p w
            | OpList \<Rightarrow> execute_list rt handler p w)"

text \<open>
  \<open>execute\<close>: the promise it returns settles with the result (\<open>Inr\<close>) or rejects
  (\<open>Inl\<close>); the second component is the world afterwards.
\<close>

definition execute ::
  "'w runtime \<Rightarrow> 'w FormatRegistry \<Rightarrow> params \<Rightarrow> 'w \<Rightarrow> (js_error + MCPResult) \<times> 'w" where
  "execute rt registry p w =
     (case execute_try rt registry p w of
        (Thrown e, w') \<Rightarrow>
          (Inr (createErrorResult
             (''Error during '' @ operation_name (operation p) @ '' operation: '' @ message e)
             (stack e)), w')
      | (Returned r, w') \<Rightarrow> (r, w'))"


text \<open>\<open>registerHandlers\<close> of \<open>index.ts\<close>: the registry the server runs with.\<close>

definition registerHandlers :: "'w runtime \<Rightarrow> 'w FormatRegistry" where
  "registerHandlers rt = register FormatRegistry_new ''gzip'' (GzipHandler rt)"

section \<open>An in-memory runtime\<close>

text \<open>
  A small instance of the runtime, on which the functions above can be run on concrete
  requests. The world is a table from paths to files and directories. Paths are used
  as they are written: \<open>sim_dirname\<close> and \<open>sim_basename\<close> split at the last slash,
  \<open>sim_join\<close> puts a slash between its arguments, normalising changes nothing,
  which is what the \<open>path\<close> module does on the normalised paths without a trailing
  slash used below. The codec is a stand-in: \<open>sim_gzip\<close> puts the two magic bytes
  \<open>0x1f 0x8b\<close> before the data and \<open>sim_gunzip\<close> takes them off. Streams emit chunks
  of \<open>n\<close> bytes (the last one may be shorter). \<open>sim_toString\<close> returns the bytes of
  the range as characters, which is how ASCII data decodes; the data used below is ASCII.
\<close>

datatype entry = File buffer | Directory

type_synonym sim_world = "(path \<times> entry) list"

definition sim_error :: "string \<Rightarrow> path \<Rightarrow> js_error" where
  "sim_error c p = Error (c @ '': '' @ p) (Some c) None"

definition sim_access :: "sim_world \<Rightarrow> path \<Rightarrow> js_error option" where
  "sim_access w p = (case map_of w p of None \<Rightarrow> Some (sim_error ''ENOENT'' p) | Some x \<Rightarrow> None)"

definition sim_stat :: "sim_world \<Rightarrow> path \<Rightarrow> js_error + Stats" where
  "sim_stat w p =
     (case map_of w p of
        None \<Rightarrow> Inl (sim_error ''ENOENT'' p)
      | Some (File b) \<Rightarrow> Inr \<lparr>st_isFile = True, st_isDirectory = False, st_size = length b\<rparr>
      | Some Directory \<Rightarrow> Inr \<lparr>st_isFile = False, st_isDirectory = True, st_size = 4096\<rparr>)"

definition sim_mkdir :: "sim_world \<Rightarrow> path \<Rightarrow> js_error option \<times> sim_world" where
  "sim_mkdir w p =
     (case map_of w p of
        Some (File b) \<Rightarrow> (Some (sim_error ''EEXIST'' p), w)
      | Some Directory \<Rightarrow> (None, w)
      | None \<Rightarrow> (None, AList.update p Directory w))"

definition sim_basename :: "path \<Rightarrow> path" where
  "sim_basename p = rev (takeWhile (\<lambda>c. c \<noteq> CHR ''/'') (rev p))"

definition sim_dirname :: "path \<Rightarrow> path" where
  "sim_dirname p =
     (let d = rev (drop 1 (dropWhile (\<lambda>c. c \<noteq> CHR ''/'') (rev p)))
      in if d = [] then (if prefix ''/'' p then ''/'' else ''.'') else d)"

definition sim_extname :: "path \<Rightarrow> path" where
  "sim_extname p =
     (let b = sim_basename p;
          e = rev (takeWhile (\<lambda>c. c \<noteq> CHR ''.'') (rev b))
      in if length e + 1 < length b then CHR ''.'' # e else [])"

definition sim_join :: "path \<Rightarrow> path \<Rightarrow> path" where
  "sim_join a b = a @ ''/'' @ b"

function chunks_of :: "nat \<Rightarrow> buffer \<Rightarrow> buffer list" where
  "chunks_of n b = (if n = 0 \<or> b = [] then [] else take n b # chunks_of n (drop n b))"
  by pat_completeness auto
termination
  by (relation "measure (\<lambda>(n, b). length b)") auto

declare chunks_of.simps [simp del]

definition sim_gzip :: "buffer \<Rightarrow> buffer" where
  "sim_gzip b = [CHR 0x1F, CHR 0x8B] @ b"

definition sim_gunzip :: "buffer \<Rightarrow> js_error + buffer" where
  "sim_gunzip b =
     (if prefix [CHR 0x1F, CHR 0x8B] b then Inr (drop 2 b)
      else Inl (Error ''incorrect header check'' (Some ''Z_DATA_ERROR'') None))"

definition sim_write :: "sim_world \<Rightarrow> path \<Rightarrow> buffer \<Rightarrow> js_error option \<times> sim_world" where
  "sim_write w p b =
     (case map_of w p of
        Some Directory \<Rightarrow> (Some (sim_error ''EISDIR'' p), w)
      | Some (File old) \<Rightarrow> (None, AList.update p (File b) w)
      | None \<Rightarrow>
          (case map_of w (sim_dirname p) of
             Some Directory \<Rightarrow> (None, AList.update p (File b) w)
           | Some (File x) \<Rightarrow> (Some (sim_error ''ENOTDIR'' p), w)
           | None \<Rightarrow> (Some (sim_error ''ENOENT'' p), w)))"

definition sim_gzip_pipeline ::
  "nat \<Rightarrow> sim_world \<Rightarrow> path \<Rightarrow> nat \<Rightarrow> path \<Rightarrow> nat list \<times> js_error option \<times> sim_world" where
  "sim_gzip_pipeline n w src level tgt =
     (case map_of w src of
        None \<Rightarrow> ([], Some (sim_error ''ENOENT'' src), w)
      | Some Directory \<Rightarrow> ([], Some (sim_error ''EISDIR'' src), w)
      | Some (File b) \<Rightarrow>
          (case sim_write w tgt (sim_gzip b) of
             (Some e, w') \<Rightarrow> ([], Some e, w')
           | (None, w') \<Rightarrow> (map length (chunks_of n b), None, w')))"

definition sim_gunzip_pipeline ::
  "nat \<Rightarrow> sim_world \<Rightarrow> path \<Rightarrow> path \<Rightarrow> nat list \<times> js_error option \<times> sim_world" where
  "sim_gunzip_pipeline n w src tgt =
     (case map_of w src of
        None \<Rightarrow> ([], Some (sim_error ''ENOENT'' src), w)
      | Some Directory \<Rightarrow> ([], Some (sim_error ''EISDIR'' src), w)
      | Some (File b) \<Rightarrow>
          (case sim_gunzip b of
             Inl e \<Rightarrow> (map length (chunks_of n b), Some e, w)
           | Inr d \<Rightarrow>
               (case sim_write w tgt d of
                  (Some e, w') \<Rightarrow> ([], Some e, w')
                | (None, w') \<Rightarrow> (map length (chunks_of n b), None, w'))))"

definition sim_gunzip_stream :: "nat \<Rightarrow> sim_world \<Rightarrow> path \<Rightarrow> buffer list \<times> js_error option" where
  "sim_gunzip_stream n w src =
     (case map_of w src of
        None \<Rightarrow> ([], Some (sim_error ''ENOENT'' src))
      | Some Directory \<Rightarrow> ([], Some (sim_error ''EISDIR'' src))
      | Some (File b) \<Rightarrow>
          (case sim_gunzip b of
             Inl e \<Rightarrow> ([], Some e)
           | Inr d \<Rightarrow> (chunks_of n d, None)))"

definition sim_toString :: "buffer \<Rightarrow> nat \<Rightarrow> nat \<Rightarrow> string" where
  "sim_toString b start stop = take (stop - start) (drop start b)"

definition sim :: "nat \<Rightarrow> sim_world runtime" where
  "sim n =
     \<lparr>fs_access = sim_access,
      fs_stat = sim_stat,
      fs_mkdir = sim_mkdir,
      path_normalize = (\<lambda>p. p),
      path_dirname = sim_dirname,
      path_basename = sim_basename,
      path_extname = sim_extname,
      path_join = sim_join,
      new_stack = (\<lambda>msg. None),
      createGzip = (\<lambda>level. if level \<le> 9 then None
                              else Some (Error ''The value of level is out of range''
                                           (Some ''ERR_OUT_OF_RANGE'') None)),
      gzip_pipeline = sim_gzip_pipeline n,
      gunzip_pipeline = sim_gunzip_pipeline n,
      gunzip_stream = sim_gunzip_stream n,
      toString_utf8 = sim_toString\<rparr>"

text \<open>
  A case variant of a name: the same letters, each in either case.
\<close>

definition case_variant :: "string \<Rightarrow> string \<Rightarrow> bool" where
  "case_variant v n =
     list_all2 (\<lambda>c d. c = d \<or> c = toUpperCase_char d \<or> c = toLowerCase_char d) v n"

section \<open>Properties of the bounded sink\<close>

lemma write_maxLength: "maxLength (MemoryWritable_write s c) = maxLength s"
  by (simp add: MemoryWritable_write_def Let_def)

lemma write_chunks:
  assumes "totalLength s = length (concat (chunks s))" "totalLength s \<le> maxLength s"
  shows "concat (chunks (MemoryWritable_write s c)) = take (maxLength s) (concat (chunks s) @ c)"
    and "totalLength (MemoryWritable_write s c) = length (concat (chunks (MemoryWritable_write s c)))"
    and "totalLength (MemoryWritable_write s c) \<le> maxLength s"
  using assms by (auto simp: MemoryWritable_write_def Let_def)

lemma foldl_write_inv:
  assumes "totalLength s = length (concat (chunks s))" "totalLength s \<le> maxLength s"
  shows "concat (chunks (foldl MemoryWritable_write s ws))
           = take (maxLength s) (concat (chunks s) @ concat ws)
       \<and> totalLength (foldl MemoryWritable_write s ws)
           = length (concat (chunks (foldl MemoryWritable_write s ws)))
       \<and> maxLength (foldl MemoryWritable_write s ws) = maxLength s"
  using assms
proof (induction ws arbitrary: s)
  case Nil
  then show ?case by simp
next
  case (Cons w ws)
  let ?t = "MemoryWritable_write s w"
  have t: "totalLength ?t = length (concat (chunks ?t))" "totalLength ?t \<le> maxLength ?t"
    using write_chunks(2,3)[OF Cons.prems] by (simp_all add: write_maxLength)
  have c: "concat (chunks ?t) = take (maxLength s) (concat (chunks s) @ w)"
    by (rule write_chunks(1)[OF Cons.prems])
  have "take (maxLength s) (take (maxLength s) (concat (chunks s) @ w) @ concat ws)
          = take (maxLength s) (concat (chunks s) @ w @ concat ws)"
    by (simp add: take_add min_def)
  with Cons.IH[OF t] c show ?case
    by (simp add: write_maxLength)
qed

text \<open>
  C10. After any sequence of \<open>_write\<close> calls with arbitrary chunks on a sink built with
  \<open>maxLength = n\<close>, the stored \<open>totalLength\<close> is at most \<open>maxLength\<close>, and
  \<open>getContent()\<close> is exactly the first \<open>min n (total bytes written)\<close> bytes of the data
  written, in order.
\<close>

theorem MemoryWritable_bounded_prefix:
  "totalLength (MemoryWritable_run n ws) \<le> maxLength (MemoryWritable_run n ws)
   \<and> maxLength (MemoryWritable_run n ws) = n
   \<and> getContent (MemoryWritable_run n ws)
       = take (min n (length (concat ws))) (concat ws)"
proof -
  have init: "totalLength (MemoryWritable_new n) = length (concat (chunks (MemoryWritable_new n)))"
    "totalLength (MemoryWritable_new n) \<le> maxLength (MemoryWritable_new n)"
    by (simp_all add: MemoryWritable_new_def)
  from foldl_write_inv[OF init, of ws]
  have c: "concat (chunks (MemoryWritable_run n ws)) = take n (concat ws)"
    and t: "totalLength (MemoryWritable_run n ws) = length (concat (chunks (MemoryWritable_run n ws)))"
    and m: "maxLength (MemoryWritable_run n ws) = n"
    by (simp_all add: MemoryWritable_run_def MemoryWritable_new_def)
  show ?thesis
    using c t m by (simp add: getContent_def Buffer_concat_def min_def)
qed

theorem MemoryWritable_bounded_prefix_witness:
  "totalLength (MemoryWritable_run 5 [''abc'', ''defg'', ''h'']) \<le> 5
   \<and> getContent (MemoryWritable_run 5 [''abc'', ''defg'', ''h'']) = ''abcde''"
  using MemoryWritable_bounded_prefix[of 5 "[''abc'', ''defg'', ''h'']"] by simp

section \<open>Case-insensitive resolution\<close>

lemma lower_upper_char: "toLowerCase_char (toUpperCase_char c) = toLowerCase_char c"
proof -
  have "(of_char c :: nat) < 256" by simp
  then show ?thesis
    by (auto simp: toLowerCase_char_def toUpperCase_char_def Let_def)
qed

lemma lower_lower_char: "toLowerCase_char (toLowerCase_char c) = toLowerCase_char c"
proof -
  have "(of_char c :: nat) < 256" by simp
  then show ?thesis
    by (auto simp: toLowerCase_char_def Let_def)
qed

lemma case_variant_lower: "case_variant v n \<Longrightarrow> toLowerCase v = toLowerCase n"
  unfolding case_variant_def toLowerCase_def
  by (induction rule: list_all2_induct) (auto simp: lower_upper_char lower_lower_char)

lemma case_variant_upper: "case_variant (toUpperCase n) n"
  unfolding case_variant_def toUpperCase_def
  by (induction n) auto

lemma getHandlerByFormat_register:
  "getHandlerByFormat (register r n h) m =
     (if toLowerCase m = toLowerCase n then Some h else getHandlerByFormat r m)"
  by (simp add: getHandlerByFormat_def register_def update_conv')

lemma getHandlerByFormat_registerHandlers:
  "getHandlerByFormat (registerHandlers rt) f =
     (if toLowerCase f = ''gzip'' then Some (GzipHandler rt) else None)"
proof -
  have "toLowerCase ''gzip'' = ''gzip''" by code_simp
  then show ?thesis
    by (simp add: registerHandlers_def getHandlerByFormat_def register_def FormatRegistry_new_def)
qed

lemma lower_gzip: "toLowerCase ''gzip'' = ''gzip''"
  by code_simp

lemma getAllFormats_registerHandlers: "getAllFormats (registerHandlers rt) = [''gzip'']"
proof -
  have "toLowerCase ''gzip'' = ''gzip''" by code_simp
  then show ?thesis
    by (simp add: registerHandlers_def getAllFormats_def register_def FormatRegistry_new_def)
qed

text \<open>
  C9. Resolution by format name is case-insensitive: a case variant \<open>v\<close> of a name
  \<open>n\<close> resolves to the same handler as \<open>n\<close> in every registry, and to the handler
  \<open>h\<close> once \<open>h\<close> has been registered under \<open>n\<close>.
\<close>

theorem resolve_case_insensitive:
  assumes "case_variant v n"
  shows "getHandlerByFormat r v = getHandlerByFormat r n
       \<and> getHandlerByFormat (register r n h) v = Some h
       \<and> getHandlerByFormat (register r n h) n = Some h"
  using case_variant_lower[OF assms]
  by (simp add: getHandlerByFormat_register) (simp add: getHandlerByFormat_def)

theorem resolve_case_insensitive_witness:
  "case_variant ''GZIP'' ''gzip''
   \<and> getHandlerByFormat (registerHandlers (sim 16384)) ''GZIP''
       = getHandlerByFormat (registerHandlers (sim 16384)) ''gzip''
   \<and> getHandlerByFormat (registerHandlers (sim 16384)) ''GZIP'' = Some (GzipHandler (sim 16384))"
proof -
  have cv: "case_variant ''GZIP'' ''gzip''"
    by code_simp
  from resolve_case_insensitive[OF cv, of "FormatRegistry_new" "GzipHandler (sim 16384)"]
       resolve_case_insensitive[OF cv, of "registerHandlers (sim 16384)"] cv
  show ?thesis
    by (simp add: registerHandlers_def)
qed

section \<open>Binary64 rounding\<close>

lemma floor_rat_numeral: "\<lfloor>(numeral a / numeral b :: rat)\<rfloor> = numeral a div numeral b"
  by (metis floor_divide_of_int_eq of_int_numeral)

lemma floor_rat_one_numeral: "\<lfloor>(1 / numeral b :: rat)\<rfloor> = 1 div numeral b"
  by (metis floor_divide_of_int_eq of_int_numeral of_int_1)

text \<open>The equations that let the simplifier compute \<open>fl\<close> on a numeral.\<close>

lemmas fl_eval = fl_def binexp_def pow2_def round_even_def Let_def bitlen.simps
  floor_rat_numeral floor_rat_one_numeral

lemma pow2_pos: "0 < pow2 e"
  by (simp add: pow2_def)

lemma round_even_nonneg: "0 \<le> q \<Longrightarrow> 0 \<le> round_even q"
  by (auto simp: round_even_def Let_def)

lemma fl_nonneg: "0 \<le> x \<Longrightarrow> 0 \<le> fl x"
proof -
  assume x: "0 \<le> x"
  show ?thesis
  proof (cases "x = 0")
    case True
    then show ?thesis by (simp add: fl_def)
  next
    case False
    with x have "0 < x" by simp
    moreover have "0 \<le> round_even (\<bar>x\<bar> / pow2 (binexp \<bar>x\<bar> - 52))"
      using pow2_pos[of "binexp \<bar>x\<bar> - 52"] by (intro round_even_nonneg) simp
    ultimately show ?thesis
      using pow2_pos[of "binexp \<bar>x\<bar> - 52"] by (simp add: fl_def Let_def)
  qed
qed

lemma Math_round_nonneg: "0 \<le> x \<Longrightarrow> 0 \<le> Math_round x"
  by (simp add: Math_round_def)

text \<open>
  The rounding \<open>fl\<close> is what its description says: \<open>binexp\<close> is the binary exponent,
  \<open>fl\<close> is monotone and its relative error is at most \<open>2 ^ -53\<close>.
\<close>

lemma bitlen_bounds: "0 < n \<Longrightarrow> 2 ^ (bitlen n - 1) \<le> n \<and> n < 2 ^ bitlen n"
proof (induction n rule: bitlen.induct)
  case (1 n)
  show ?case
  proof (cases "n div 2 = 0")
    case True
    with "1.prems" have "n = 1" by (simp add: div_eq_0_iff)
    then show ?thesis by (simp add: bitlen.simps)
  next
    case False
    then have pos: "0 < n div 2" by simp
    from "1.prems" have n0: "n \<noteq> 0" by simp
    from "1.IH"[OF n0 pos]
    have ih: "2 ^ (bitlen (n div 2) - 1) \<le> n div 2" "n div 2 < 2 ^ bitlen (n div 2)" by auto
    have b: "bitlen n = Suc (bitlen (n div 2))"
      using n0 by (subst bitlen.simps) simp
    have bp: "0 < bitlen (n div 2)"
      using pos by (subst bitlen.simps) simp
    then have "(2::nat) ^ bitlen (n div 2) = 2 * 2 ^ (bitlen (n div 2) - 1)"
      by (cases "bitlen (n div 2)") simp_all
    with ih have "2 ^ bitlen (n div 2) \<le> 2 * (n div 2)" by simp
    moreover have "2 * (n div 2) \<le> n" by simp
    moreover have "n < 2 * (n div 2) + 2" by arith
    moreover from ih(2) have "2 * (n div 2) + 2 \<le> 2 * 2 ^ bitlen (n div 2)" by simp
    ultimately show ?thesis using b by simp
  qed
qed

lemma pow2_powi: "pow2 e = 2 powi e"
  by (simp add: pow2_def power_int_def power_one_over inverse_eq_divide)

lemma pow2_nat: "pow2 (int n) = 2 ^ n"
  by (simp add: pow2_def)

lemma pow2_mono: "a \<le> b \<Longrightarrow> pow2 a \<le> pow2 b"
  by (simp add: pow2_powi power_int_increasing)

lemma pow2_Suc: "pow2 (e + 1) = 2 * pow2 e"
  by (simp add: pow2_powi power_int_add)

lemma pow2_add: "pow2 (a + b) = pow2 a * pow2 b"
  by (simp add: pow2_powi power_int_add)

lemma pow2_minus: "pow2 (- e) = 1 / pow2 e"
  by (simp add: pow2_powi power_int_minus inverse_eq_divide)

lemma floor_pos_bounds:
  fixes y :: rat
  assumes "1 \<le> y"
  shows "2 ^ (bitlen (nat \<lfloor>y\<rfloor>) - 1) \<le> y \<and> y < 2 ^ bitlen (nat \<lfloor>y\<rfloor>)"
proof -
  let ?n = "nat \<lfloor>y\<rfloor>"
  from assms have f1: "1 \<le> \<lfloor>y\<rfloor>" by simp
  then have npos: "0 < ?n" by simp
  from bitlen_bounds[OF npos] have lo: "2 ^ (bitlen ?n - 1) \<le> ?n" and hi: "?n < 2 ^ bitlen ?n"
    by auto
  have ny: "of_nat ?n \<le> y"
    using f1 by (simp add: of_nat_nat) 
  have "(2::rat) ^ (bitlen ?n - 1) = of_nat (2 ^ (bitlen ?n - 1))" by simp
  also have "\<dots> \<le> of_nat ?n" using lo by (simp only: of_nat_le_iff)
  finally have "(2::rat) ^ (bitlen ?n - 1) \<le> of_nat ?n" .
  then have 1: "(2::rat) ^ (bitlen ?n - 1) \<le> y" using ny by (rule order_trans)
  from hi have "Suc ?n \<le> 2 ^ bitlen ?n" by (rule Suc_leI)
  then have "(of_nat (Suc ?n) :: rat) \<le> of_nat (2 ^ bitlen ?n)" by (simp only: of_nat_le_iff)
  moreover have "y < of_nat (Suc ?n)"
    using f1 by (simp add: of_nat_nat) linarith
  ultimately have "y < of_nat (2 ^ bitlen ?n)" by (rule less_le_trans[rotated])
  then have 2: "y < 2 ^ bitlen ?n" by simp
  from 1 2 show ?thesis by simp
qed

lemma bitlen_pos: "0 < n \<Longrightarrow> 0 < bitlen n"
  by (subst bitlen.simps) simp

lemma binexp_bounds:
  assumes "0 < x"
  shows "pow2 (binexp x) \<le> x \<and> x < pow2 (binexp x + 1)"
proof (cases "1 \<le> x")
  case True
  let ?b = "bitlen (nat \<lfloor>x\<rfloor>)"
  from True have "0 < nat \<lfloor>x\<rfloor>" by simp
  then have bp: "0 < ?b" by (rule bitlen_pos)
  then have e: "binexp x = int (?b - 1)" using True by (simp add: binexp_def)
  have e1: "binexp x + 1 = int ?b" using e bp by simp
  from floor_pos_bounds[OF True] show ?thesis
    unfolding e1 unfolding e by (simp add: pow2_nat)
next
  case False
  let ?y = "1 / x"
  let ?b = "bitlen (nat \<lfloor>?y\<rfloor>)"
  from False assms have y1: "1 \<le> ?y" by (simp add: le_divide_eq)
  then have "0 < nat \<lfloor>?y\<rfloor>" by simp
  then have bp: "0 < ?b" by (rule bitlen_pos)
  define k where "k = int ?b - 1"
  have k0: "0 \<le> k" and kn: "k = int (?b - 1)" and k1: "k + 1 = int ?b"
    using bp by (simp_all add: k_def)
  from floor_pos_bounds[OF y1] have lo: "pow2 k \<le> ?y" and hi: "?y < pow2 (k + 1)"
    unfolding k1 unfolding kn by (simp_all add: pow2_nat)
  have pk: "0 < pow2 k" "0 < pow2 (k + 1)" by (rule pow2_pos)+
  from lo pk assms have xle: "x \<le> pow2 (- k)"
    by (simp add: pow2_minus field_simps)
  have xgt: "pow2 (- k - 1) < x"
  proof -
    have eq: "pow2 (- k - 1) = 1 / pow2 (k + 1)"
      using pow2_minus[of "k + 1"] by simp
    have "1 / pow2 (k + 1) < x"
      using hi pk(2) assms by (simp add: field_simps)
    then show ?thesis by (simp only: eq)
  qed
  show ?thesis
  proof (cases "x = pow2 (- k)")
    case True
    then have e: "binexp x = - k" using False by (simp add: binexp_def k_def Let_def)
    have "pow2 (- k + 1) = 2 * pow2 (- k)" by (rule pow2_Suc)
    with True assms e show ?thesis by simp
  next
    case ne: False
    then have e: "binexp x = - k - 1" using False by (simp add: binexp_def k_def Let_def)
    from xle ne have "x < pow2 (- k)" by simp
    with xgt e show ?thesis by simp
  qed
qed

lemma round_even_range: "\<lfloor>q\<rfloor> \<le> round_even q \<and> round_even q \<le> \<lfloor>q\<rfloor> + 1"
  by (simp add: round_even_def Let_def)

lemma round_even_of_int: "round_even (of_int n) = n"
  by (simp add: round_even_def Let_def)

lemma round_even_mono:
  assumes "q \<le> q'"
  shows "round_even q \<le> round_even q'"
proof (cases "\<lfloor>q\<rfloor> = \<lfloor>q'\<rfloor>")
  case True
  with assms have "q - of_int \<lfloor>q\<rfloor> \<le> q' - of_int \<lfloor>q'\<rfloor>" by simp
  with True show ?thesis
    by (auto simp: round_even_def Let_def)
next
  case False
  with assms have "\<lfloor>q\<rfloor> < \<lfloor>q'\<rfloor>"
    using floor_mono[OF assms] by simp
  then have "\<lfloor>q\<rfloor> + 1 \<le> \<lfloor>q'\<rfloor>" by simp
  with round_even_range[of q] round_even_range[of q'] show ?thesis by linarith
qed

lemma fl_pos_eq:
  "0 < x \<Longrightarrow> fl x = of_int (round_even (x / pow2 (binexp x - 52))) * pow2 (binexp x - 52)"
  by (simp add: fl_def Let_def)

lemma pow2_split: "pow2 (e + 52) = 2 ^ 52 * pow2 e"
  using pow2_add[of e 52] pow2_nat[of 52] by (simp add: mult.commute)

lemma fl_lower:
  assumes "0 < x"
  shows "pow2 (binexp x) \<le> fl x"
proof -
  let ?s = "pow2 (binexp x - 52)"
  have s: "0 < ?s" by (rule pow2_pos)
  have b: "pow2 (binexp x) = 2 ^ 52 * ?s"
    using pow2_split[of "binexp x - 52"] by simp
  from binexp_bounds[OF assms] have "2 ^ 52 * ?s \<le> x" by (simp add: b)
  with s have "of_int (2 ^ 52) \<le> x / ?s" by (simp add: le_divide_eq)
  from round_even_mono[OF this] have "2 ^ 52 \<le> round_even (x / ?s)"
    by (simp only: round_even_of_int)
  then have "(of_int (2 ^ 52) :: rat) \<le> of_int (round_even (x / ?s))"
    by (simp only: of_int_le_iff)
  with s have "of_int (2 ^ 52) * ?s \<le> of_int (round_even (x / ?s)) * ?s"
    by (simp only: mult_le_cancel_right_pos)
  then show ?thesis
    unfolding fl_pos_eq[OF assms] b by simp
qed

lemma fl_upper:
  assumes "0 < x"
  shows "fl x \<le> pow2 (binexp x + 1)"
proof -
  let ?s = "pow2 (binexp x - 52)"
  have s: "0 < ?s" by (rule pow2_pos)
  have b: "pow2 (binexp x + 1) = 2 ^ 53 * ?s"
    using pow2_split[of "binexp x - 52"] pow2_Suc[of "binexp x"] by simp
  from binexp_bounds[OF assms] have "x \<le> 2 ^ 53 * ?s" by (simp add: b)
  with s have "x / ?s \<le> of_int (2 ^ 53)" by (simp add: divide_le_eq)
  from round_even_mono[OF this] have "round_even (x / ?s) \<le> 2 ^ 53"
    by (simp only: round_even_of_int)
  then have "(of_int (round_even (x / ?s)) :: rat) \<le> of_int (2 ^ 53)"
    by (simp only: of_int_le_iff)
  with s have "of_int (round_even (x / ?s)) * ?s \<le> of_int (2 ^ 53) * ?s"
    by (simp only: mult_le_cancel_right_pos)
  then show ?thesis
    unfolding fl_pos_eq[OF assms] b by simp
qed

lemma binexp_mono:
  assumes "0 < x" and "x \<le> y"
  shows "binexp x \<le> binexp y"
proof (rule ccontr)
  assume "\<not> binexp x \<le> binexp y"
  then have "binexp y + 1 \<le> binexp x" by simp
  then have "pow2 (binexp y + 1) \<le> pow2 (binexp x)" by (rule pow2_mono)
  moreover from assms have "0 < y" by simp
  ultimately show False
    using binexp_bounds[OF assms(1)] binexp_bounds[OF \<open>0 < y\<close>] assms(2) by linarith
qed

lemma fl_mono:
  assumes "0 \<le> x" and "x \<le> y"
  shows "fl x \<le> fl y"
proof (cases "x = 0")
  case True
  with assms fl_nonneg[of y] show ?thesis by (simp add: fl_def)
next
  case False
  with assms have x: "0 < x" and y: "0 < y" by simp_all
  show ?thesis
  proof (cases "binexp x = binexp y")
    case True
    let ?s = "pow2 (binexp y - 52)"
    have s: "0 < ?s" by (rule pow2_pos)
    with assms(2) have "x / ?s \<le> y / ?s" by (simp add: divide_le_cancel)
    from round_even_mono[OF this]
    have "(of_int (round_even (x / ?s)) :: rat) \<le> of_int (round_even (y / ?s))"
      by (simp only: of_int_le_iff)
    with s have "of_int (round_even (x / ?s)) * ?s \<le> of_int (round_even (y / ?s)) * ?s"
      by (simp only: mult_le_cancel_right_pos)
    then show ?thesis
      unfolding fl_pos_eq[OF x] fl_pos_eq[OF y] True .
  next
    case False
    with binexp_mono[OF x assms(2)] have "binexp x + 1 \<le> binexp y" by simp
    then have "pow2 (binexp x + 1) \<le> pow2 (binexp y)" by (rule pow2_mono)
    with fl_upper[OF x] fl_lower[OF y] show ?thesis by linarith
  qed
qed

lemma round_even_error: "\<bar>of_int (round_even q) - q\<bar> \<le> 1 / 2"
proof -
  have lo: "of_int \<lfloor>q\<rfloor> \<le> q" and hi: "q < of_int \<lfloor>q\<rfloor> + 1"
    by linarith+
  consider "q - of_int \<lfloor>q\<rfloor> < 1 / 2" | "1 / 2 < q - of_int \<lfloor>q\<rfloor>"
    | "q - of_int \<lfloor>q\<rfloor> = 1 / 2"
    by linarith
  then show ?thesis
  proof cases
    case 1
    then have "round_even q = \<lfloor>q\<rfloor>" by (simp add: round_even_def Let_def)
    with 1 lo show ?thesis by simp
  next
    case 2
    then have "round_even q = \<lfloor>q\<rfloor> + 1" by (simp add: round_even_def Let_def)
    with 2 hi show ?thesis by simp
  next
    case 3
    then have "round_even q = \<lfloor>q\<rfloor> \<or> round_even q = \<lfloor>q\<rfloor> + 1"
      by (simp add: round_even_def Let_def)
    with 3 show ?thesis by auto
  qed
qed

lemma fl_error:
  assumes "0 < x"
  shows "\<bar>fl x - x\<bar> \<le> x / 2 ^ 53"
proof -
  let ?s = "pow2 (binexp x - 52)"
  have s: "0 < ?s" by (rule pow2_pos)
  have b: "pow2 (binexp x) = 2 ^ 52 * ?s"
    using pow2_split[of "binexp x - 52"] by simp
  have r: "\<bar>of_int (round_even (x / ?s)) - x / ?s\<bar> \<le> 1 / 2"
    by (rule round_even_error)
  have "fl x - x = (of_int (round_even (x / ?s)) - x / ?s) * ?s"
    using s by (simp add: fl_pos_eq[OF assms] field_simps)
  then have "\<bar>fl x - x\<bar> = \<bar>of_int (round_even (x / ?s)) - x / ?s\<bar> * ?s"
    using s by (simp add: abs_mult)
  also have "\<dots> \<le> 1 / 2 * ?s"
    using r s by (simp only: mult_le_cancel_right_pos)
  also have "\<dots> = pow2 (binexp x) / 2 ^ 53"
    by (simp add: b)
  also have "\<dots> \<le> x / 2 ^ 53"
    using binexp_bounds[OF assms] by (simp add: divide_le_cancel)
  finally show ?thesis .
qed

lemma Math_round_mono: "x \<le> y \<Longrightarrow> Math_round x \<le> Math_round y"
  by (simp add: Math_round_def floor_mono)

lemma fl_1: "fl 1 = 1"
  by (simp add: fl_eval)

lemma fl_100: "fl 100 = 100"
  by (simp add: fl_eval)

section \<open>The percentage of a progress event\<close>

lemma percent_mono:
  assumes "t \<noteq> 0" and "b \<le> b'"
  shows "the (percentComplete (formatProgress b (Some t) s d))
           \<le> the (percentComplete (formatProgress b' (Some t) s' d'))"
proof -
  have "(of_nat b :: rat) / of_nat t \<le> of_nat b' / of_nat t"
    using assms by (simp add: divide_right_mono)
  then have "fl (of_nat b / of_nat t) \<le> fl (of_nat b' / of_nat t)"
    by (intro fl_mono) simp_all
  then have "fl (of_nat b / of_nat t) * 100 \<le> fl (of_nat b' / of_nat t) * 100"
    by simp
  moreover have "0 \<le> fl (of_nat b / of_nat t) * 100"
    by (intro mult_nonneg_nonneg fl_nonneg) simp_all
  ultimately have "fl (fl (of_nat b / of_nat t) * 100) \<le> fl (fl (of_nat b' / of_nat t) * 100)"
    by (rule fl_mono[rotated])
  then have "Math_round (fl (fl (of_nat b / of_nat t) * 100))
               \<le> Math_round (fl (fl (of_nat b' / of_nat t) * 100))"
    by (rule Math_round_mono)
  with assms(1) show ?thesis
    by (simp add: formatProgress_def Let_def min_def)
qed

lemma percent_near_exact:
  assumes "t \<noteq> 0" and "b \<le> t"
  shows "\<bar>of_int (the (percentComplete (formatProgress b (Some t) s d)))
            - 100 * of_nat b / of_nat t\<bar> \<le> (1 / 2 + 201 / 2 ^ 53 :: rat)"
proof -
  let ?x = "of_nat b / of_nat t :: rat"
  let ?y = "fl ?x"
  let ?z = "fl (?y * 100)"
  have x01: "0 \<le> ?x" "?x \<le> 1"
    using assms by (simp_all add: divide_le_eq)
  have e1: "\<bar>?y - ?x\<bar> \<le> 1 / 2 ^ 53"
  proof (cases "?x = 0")
    case True
    show ?thesis unfolding True by (simp add: fl_def)
  next
    case False
    with x01 have "0 < ?x" by simp
    from fl_error[OF this] x01(2) show ?thesis
      by (meson divide_right_mono order_trans zero_le_numeral zero_le_power)
  qed
  have y0: "0 \<le> ?y" using x01(1) by (rule fl_nonneg)
  have y1: "?y \<le> 1 + 1 / 2 ^ 53"
    using e1 x01(2) by linarith
  have e2: "\<bar>?z - ?y * 100\<bar> \<le> 101 / 2 ^ 53"
  proof (cases "?y = 0")
    case True
    show ?thesis unfolding True by (simp add: fl_def)
  next
    case False
    with y0 have p: "0 < ?y * 100" by simp
    have "?y * 100 \<le> 101" using y1 by simp
    then have "?y * 100 / 2 ^ 53 \<le> 101 / 2 ^ 53"
      by (simp add: divide_right_mono)
    with fl_error[OF p] show ?thesis by linarith
  qed
  have e3: "\<bar>?z - 100 * ?x\<bar> \<le> 201 / 2 ^ 53"
    using e1 e2 by linarith
  have z0: "0 \<le> ?z"
    using y0 by (intro fl_nonneg) simp
  have r: "\<bar>of_int (Math_round ?z) - ?z\<bar> \<le> 1 / 2"
    unfolding Math_round_def by linarith
  have zle: "?z \<le> 100 + 201 / 2 ^ 53"
    using e3 x01(2) by linarith
  then have "Math_round ?z \<le> 100"
    unfolding Math_round_def by (simp add: floor_le_iff)
  then have "min (Math_round ?z) 100 = Math_round ?z" by simp
  then have "the (percentComplete (formatProgress b (Some t) s d)) = Math_round ?z"
    using assms(1) by (simp add: formatProgress_def Let_def)
  with r e3 show ?thesis
    by (simp only: times_divide_eq_right)
qed

lemma formatProgress_absent:
  "percentComplete (formatProgress b None s d) = None
   \<and> percentComplete (formatProgress b (Some 0) s d) = None"
  by (simp add: formatProgress_def Let_def)

lemma formatProgress_stage: "stg \<noteq> [] \<Longrightarrow> stage (formatProgress b tb (Some stg) d) = stg"
  by (simp add: formatProgress_def truthy_string_def Let_def split: option.splits)

lemma formatProgress_start:
  "t \<noteq> 0 \<Longrightarrow> stg \<noteq> [] \<Longrightarrow> formatProgress 0 (Some t) (Some stg) None
     = \<lparr>bytesProcessed = 0, totalBytes = Some t, percentComplete = Some 0, stage = stg,
        detail = None\<rparr>"
  by (simp add: formatProgress_def truthy_string_def Math_round_def fl_def floor_rat_one_numeral)

lemma formatProgress_whole:
  "t \<noteq> 0 \<Longrightarrow> stg \<noteq> [] \<Longrightarrow> formatProgress t (Some t) (Some stg) None
     = \<lparr>bytesProcessed = t, totalBytes = Some t, percentComplete = Some 100, stage = stg,
        detail = None\<rparr>"
  by (simp add: formatProgress_def truthy_string_def Math_round_def fl_1 fl_100 floor_rat_numeral)

text \<open>
  C7 as stated fails: for 2 bytes of 3 the event carries 67, and the floor of
  \<open>2 / 3 * 100\<close> is 66.
\<close>

theorem formatProgress_floor_counterexample:
  "percentComplete (formatProgress 2 (Some 3) None None) \<noteq> Some \<lfloor>(2 :: rat) / 3 * 100\<rfloor>"
  by (simp add: formatProgress_def truthy_string_def Math_round_def fl_eval)

text \<open>
  C7, amended. When \<open>totalBytes\<close> is known and not zero, \<open>percentComplete\<close> is
  \<open>Math.min(Math.round(bytesProcessed / totalBytes * 100), 100)\<close>, the quotient and
  the product computed in binary64: the nearest integer, not the floor, capped at 100.
  It lies between 0 and 100, and as long as \<open>bytesProcessed\<close> does not exceed
  \<open>totalBytes\<close> it is within one half (and a rounding error below \<open>2 ^ -45\<close>) of the
  exact percentage.
\<close>

theorem formatProgress_percent:
  assumes "t \<noteq> 0"
  shows "percentComplete (formatProgress b (Some t) s d)
           = Some (min (Math_round (fl (fl (of_nat b / of_nat t) * 100))) 100)
       \<and> 0 \<le> the (percentComplete (formatProgress b (Some t) s d))
       \<and> the (percentComplete (formatProgress b (Some t) s d)) \<le> 100
       \<and> (b \<le> t \<longrightarrow>
            \<bar>of_int (the (percentComplete (formatProgress b (Some t) s d)))
               - 100 * of_nat b / of_nat t\<bar> \<le> (1 / 2 + 201 / 2 ^ 53 :: rat))
       \<and> totalBytes (formatProgress b (Some t) s d) = Some t
       \<and> bytesProcessed (formatProgress b (Some t) s d) = b"
proof -
  have "0 \<le> fl (fl (of_nat b / of_nat t) * 100)"
    by (intro fl_nonneg mult_nonneg_nonneg) simp_all
  then have "0 \<le> Math_round (fl (fl (of_nat b / of_nat t) * 100))"
    by (rule Math_round_nonneg)
  with assms have
    "percentComplete (formatProgress b (Some t) s d)
           = Some (min (Math_round (fl (fl (of_nat b / of_nat t) * 100))) 100)
       \<and> 0 \<le> the (percentComplete (formatProgress b (Some t) s d))
       \<and> the (percentComplete (formatProgress b (Some t) s d)) \<le> 100
       \<and> totalBytes (formatProgress b (Some t) s d) = Some t
       \<and> bytesProcessed (formatProgress b (Some t) s d) = b"
    by (simp add: formatProgress_def Let_def)
  with percent_near_exact[OF assms, of b s d] show ?thesis
    by blast
qed

theorem formatProgress_percent_witness:
  "percentComplete (formatProgress 2 (Some 3) (Some ''compressing'') None) = Some 67
   \<and> percentComplete (formatProgress 29 (Some 200) (Some ''compressing'') None) = Some 14"
  using formatProgress_percent[of 3 2 "Some ''compressing''" None]
        formatProgress_percent[of 200 29 "Some ''compressing''" None]
  by (simp add: Math_round_def fl_eval)

section \<open>Running the functions on the in-memory runtime\<close>

text \<open>
  The equations with which the simplifier runs the functions on the in-memory runtime,
  and two runs that are used below.
\<close>

lemma suffix_eval: "suffix xs ys \<longleftrightarrow> prefix (rev xs) (rev ys)"
  by (rule suffix_to_prefix)

lemma nat_eval: "Suc (Suc 0) = 2"
  by simp

lemma sim_fields:
  "fs_access (sim n) = sim_access" "fs_stat (sim n) = sim_stat" "fs_mkdir (sim n) = sim_mkdir"
  "path_normalize (sim n) = (\<lambda>p. p)" "path_dirname (sim n) = sim_dirname"
  "path_basename (sim n) = sim_basename" "path_extname (sim n) = sim_extname"
  "path_join (sim n) = sim_join" "new_stack (sim n) = (\<lambda>msg. None)"
  "createGzip (sim n) level = (if level \<le> 9 then None
      else Some (Error ''The value of level is out of range'' (Some ''ERR_OUT_OF_RANGE'') None))"
  "gzip_pipeline (sim n) = sim_gzip_pipeline n" "gunzip_pipeline (sim n) = sim_gunzip_pipeline n"
  "gunzip_stream (sim n) = sim_gunzip_stream n" "toString_utf8 (sim n) = sim_toString"
  by (simp_all add: sim_def)

lemma GzipHandler_fields:
  "getSupportedExtensions (GzipHandler rt) = [''.gz'']"
  "getFormatName (GzipHandler rt) = ''gzip''"
  "isFormatValid (GzipHandler rt) = GzipHandler_isFormatValid"
  "compress (GzipHandler rt) = GzipHandler_compress rt"
  "decompress (GzipHandler rt) = GzipHandler_decompress rt"
  "listContents (GzipHandler rt) = GzipHandler_listContents rt"
  by (simp_all add: GzipHandler_def)

lemmas sim_eval = sim_fields sim_access_def sim_stat_def sim_mkdir_def sim_basename_def sim_dirname_def
  sim_extname_def sim_join_def sim_gzip_def sim_gunzip_def sim_write_def sim_gzip_pipeline_def
  sim_gunzip_pipeline_def sim_gunzip_stream_def sim_toString_def sim_error_def chunks_of.simps nat_eval

lemmas utils_eval = fileExists_def isFile_def isDirectory_def ensureDir_def ensureDir_try_def
  getFileSize_def resolveOutputPath_def decompress_targetPath_def getFileExtension_def removeExtension_def new_Error_def
  truthy_string_def or_number_def endsWith_def suffix_eval createSuccessResult_def
  createErrorResult_def catch_all_def Let_def

lemmas execute_eval = execute_def execute_try_def execute_compress_def execute_decompress_def
  execute_list_def compress_targetPath_def settled_def getHandlerByFormat_registerHandlers
  getAllFormats_registerHandlers GzipHandler_fields

lemma ratio_5_7: "formatCompressionRatio 5 7 = ''140.00%''"
  by (simp add: formatCompressionRatio_def js_div_def toFixed2_rat_def fl_eval show_nat.simps digit_def)

lemma compress_run:
  "GzipHandler_compress (sim 65536) ''/tmp/a.txt'' ''/tmp/a.txt.gz''
     \<lparr>co_compressionLevel = Some 6, co_outputDirectory = None, co_outputFileName = None\<rparr> True
     [(''/tmp'', Directory), (''/tmp/a.txt'', File ''hello'')]
   = (Inr (createSuccessResult ''Successfully compressed file to /tmp/a.txt.gz''
            [(''originalSize'', JNumber 5), (''compressedSize'', JNumber 7),
             (''compressionRatio'', JString ''140.00%''),
             (''sourcePath'', JString ''/tmp/a.txt''), (''targetPath'', JString ''/tmp/a.txt.gz'')]),
      [\<lparr>bytesProcessed = 0, totalBytes = Some 5, percentComplete = Some 0,
        stage = ''compressing'', detail = None\<rparr>,
       \<lparr>bytesProcessed = 5, totalBytes = Some 5, percentComplete = Some 100,
        stage = ''compressing'', detail = None\<rparr>],
      [(''/tmp'', Directory), (''/tmp/a.txt'', File ''hello''),
       (''/tmp/a.txt.gz'', File (sim_gzip ''hello''))])"
  by (simp add: GzipHandler_compress_def GzipHandler_compress_try_def sim_eval utils_eval
      formatProgress_start formatProgress_whole ratio_5_7)

lemma decompress_run:
  "GzipHandler_decompress (sim 65536) ''/tmp/a.gz'' ''/tmp/out''
     \<lparr>do_stripComponents = Some 0, do_outputDirectory = None\<rparr> False
     [(''/tmp'', Directory), (''/tmp/a.gz'', File (sim_gzip ''top secret''))]
   = (Inr (createSuccessResult ''Successfully decompressed file to /tmp/out/a''
            [(''compressedSize'', JNumber 12), (''decompressedSize'', JNumber 10),
             (''expansionRatio'', JString ''83.33%''),
             (''sourcePath'', JString ''/tmp/a.gz''), (''targetPath'', JString ''/tmp/out/a'')]),
      [],
      [(''/tmp'', Directory), (''/tmp/a.gz'', File (sim_gzip ''top secret'')),
       (''/tmp/out'', Directory), (''/tmp/out/a'', File ''top secret'')])"
proof -
  have ratio: "formatCompressionRatio 12 10 = ''83.33%''"
    by (simp add: formatCompressionRatio_def js_div_def toFixed2_rat_def fl_eval show_nat.simps digit_def)
  show ?thesis
    by (simp add: GzipHandler_decompress_def GzipHandler_decompress_try_def sim_eval utils_eval ratio)
qed

lemma extraction_10_12: "extractionRatioFormatted 10 12 = ''-16.67%''"
  by (simp add: extractionRatioFormatted_def extractionRatio_def js_div_def js_positive_def
      toFixed2_rat_def fl_eval show_nat.simps digit_def)

section \<open>Errors at the boundary\<close>


lemma catch_all_thrown:
  "fst out = Inl e \<Longrightarrow>
   fst (catch_all pre out) = Inr (createErrorResult (pre @ message e) (stack e))"
  by (cases out) (auto simp: catch_all_def)

lemma catch_all_returned: "fst out = Inr r \<Longrightarrow> catch_all pre out = out"
  by (cases out) (auto simp: catch_all_def)



lemma settled_snd: "snd (settled out) = snd (snd out)"
  by (cases out) (simp add: settled_def)



lemma execute_thrown:
  "fst (execute_try rt registry p w) = Thrown e \<Longrightarrow>
   fst (execute rt registry p w)
     = Inr (createErrorResult
         (''Error during '' @ operation_name (operation p) @ '' operation: '' @ message e) (stack e))"
  by (cases "execute_try rt registry p w") (auto simp: execute_def)













section \<open>A source path that does not exist\<close>

text \<open>
  The format is looked up before the source is: a request that names a format without a
  handler is refused for its format, whether its source exists or not.
\<close>

lemma unsupported_format_first:
  "\<not> fileExists (sim 65536) [] ''/does/not/exist''
   \<and> execute (sim 65536) (registerHandlers (sim 65536))
        \<lparr>operation = OpCompress, format = ''rar'', sourcePath = ''/does/not/exist'',
         outputDirectory = Some ''/out'', outputFileName = None, compressionLevel = None,
         stripComponents = None, previewLength = None\<rparr> []
      = (Inr (createErrorResult ''Unsupported format: rar'' (Some ''Supported formats are: gzip'')), [])"
proof -
  have "toLowerCase ''rar'' = ''rar''" by code_simp
  then show ?thesis
    by (simp add: execute_eval utils_eval sim_eval)
qed

text \<open>
  C6. For every request whose source path does not exist, whatever the operation,
  \<open>execute\<close> returns a failure and leaves the world as it was: no output file is
  written and no directory is created. For a request that names a registered format the
  failure is \<open>Source path does not exist\<close>. The three operations of the gzip handler,
  called on such a path, fail with \<open>Source file does not exist\<close>, report nothing and
  leave the world as it was.
\<close>

theorem missing_source:
  assumes "\<not> fileExists rt w (sourcePath p)"
  shows "snd (execute rt registry p w) = w
       \<and> (\<exists>r. fst (execute rt registry p w) = Inr r \<and> isError r)
       \<and> (getHandlerByFormat registry (format p) \<noteq> None \<longrightarrow>
            execute rt registry p w
              = (Inr (createErrorResult (''Source path does not exist: '' @ sourcePath p) None), w))
       \<and> GzipHandler_compress rt (sourcePath p) t copts cb w
            = (Inr (createErrorResult (''Source file does not exist: '' @ sourcePath p) None), [], w)
       \<and> GzipHandler_decompress rt (sourcePath p) t dopts cb w
            = (Inr (createErrorResult (''Source file does not exist: '' @ sourcePath p) None), [], w)
       \<and> GzipHandler_listContents rt (sourcePath p) lopts cb w
            = (Inr (createErrorResult (''Source file does not exist: '' @ sourcePath p) None), [], w)"
  using assms
  by (cases "getHandlerByFormat registry (format p)")
    (simp_all add: execute_def execute_try_def GzipHandler_compress_def GzipHandler_compress_try_def
      GzipHandler_decompress_def GzipHandler_decompress_try_def GzipHandler_listContents_def
      GzipHandler_listContents_try_def catch_all_def createErrorResult_def)

theorem missing_source_witness:
  "execute (sim 65536) (registerHandlers (sim 65536))
        \<lparr>operation = OpCompress, format = ''gzip'', sourcePath = ''/does/not/exist'',
         outputDirectory = Some ''/out'', outputFileName = None, compressionLevel = None,
         stripComponents = None, previewLength = None\<rparr> []
      = (Inr (createErrorResult ''Source path does not exist: /does/not/exist'' None), [])"
proof -
  have "\<not> fileExists (sim 65536) [] ''/does/not/exist''"
    by (simp add: utils_eval sim_eval)
  from missing_source[where rt="sim 65536" and w="[]" and registry="registerHandlers (sim 65536)"
      and p="\<lparr>operation = OpCompress, format = ''gzip'', sourcePath = ''/does/not/exist'',
         outputDirectory = Some ''/out'', outputFileName = None, compressionLevel = None,
         stripComponents = None, previewLength = None\<rparr>", simplified, OF this]
  show ?thesis
    by (simp add: getHandlerByFormat_registerHandlers lower_gzip)
qed

section \<open>An output path that exists\<close>

text \<open>
  C2 at a failing input: a \<open>compress\<close> request with the explicit
  \<open>outputFileName\<close> \<open>out.gz\<close>, where \<open>/tmp/out.gz\<close> exists. The unified tool checks
  the target whether the name was given or derived: it returns the failure
  \<open>Output file already exists\<close>, the handler is not called and the world stays as it
  was. The stand-alone tools \<open>zip\<close>, \<open>zip-folder\<close>, \<open>zip-archive\<close> and
  \<open>7z-archive\<close> make the same check only when no \<open>outputFileName\<close> was given.
\<close>

theorem explicit_name_refused:
  "truthy_string (Some ''out.gz'')
   \<and> execute (sim 65536) (registerHandlers (sim 65536))
        \<lparr>operation = OpCompress, format = ''gzip'', sourcePath = ''/tmp/a.txt'',
         outputDirectory = None, outputFileName = Some ''out.gz'', compressionLevel = None,
         stripComponents = None, previewLength = None\<rparr>
        [(''/tmp'', Directory), (''/tmp/a.txt'', File ''hello''), (''/tmp/out.gz'', File ''old'')]
      = (Inr (createErrorResult ''Output file already exists: /tmp/out.gz''
               (Some ''Please specify a different output file name or directory'')),
         [(''/tmp'', Directory), (''/tmp/a.txt'', File ''hello''), (''/tmp/out.gz'', File ''old'')])"
   by (simp add: execute_eval utils_eval sim_eval lower_gzip)

text \<open>
  In general, for a \<open>compress\<close> request on a registered format whose source exists
  and is a file or a directory: when the target path exists, be it derived from the
  source name or built from an explicit \<open>outputFileName\<close>, \<open>execute\<close> returns the
  failure \<open>Output file already exists\<close> and leaves the world as it was; when it does
  not exist, \<open>execute\<close> returns what the handler's \<open>compress\<close> returns.
\<close>

lemma existing_output:
  assumes "getHandlerByFormat registry (format p) = Some h"
    and "operation p = OpCompress"
    and "fileExists rt w (sourcePath p)"
    and "isDirectory rt w (sourcePath p) \<or> isFile rt w (sourcePath p)"
  shows "(fileExists rt w (compress_targetPath rt h p) \<longrightarrow>
           execute rt registry p w
             = (Inr (createErrorResult
                  (''Output file already exists: '' @ compress_targetPath rt h p)
                  (Some ''Please specify a different output file name or directory'')), w))
       \<and> (\<not> fileExists rt w (compress_targetPath rt h p) \<longrightarrow>
           execute rt registry p w
             = (case compress h (sourcePath p) (compress_targetPath rt h p)
                       \<lparr>co_compressionLevel = Some (or_number (compressionLevel p) 6),
                        co_outputDirectory = None, co_outputFileName = None\<rparr> False w
                of (r, events, w') \<Rightarrow> (r, w')))"
  using assms
  by (auto simp: execute_def execute_try_def execute_compress_def Let_def settled_def
      split: prod.splits)

lemma existing_output_derived_name:
  "execute (sim 65536) (registerHandlers (sim 65536))
        \<lparr>operation = OpCompress, format = ''gzip'', sourcePath = ''/tmp/a.txt'',
         outputDirectory = None, outputFileName = None, compressionLevel = None,
         stripComponents = None, previewLength = None\<rparr>
        [(''/tmp'', Directory), (''/tmp/a.txt'', File ''hello''), (''/tmp/a.txt.gz'', File ''old'')]
      = (Inr (createErrorResult ''Output file already exists: /tmp/a.txt.gz''
               (Some ''Please specify a different output file name or directory'')),
         [(''/tmp'', Directory), (''/tmp/a.txt'', File ''hello''), (''/tmp/a.txt.gz'', File ''old'')])"
proof -
  let ?w = "[(''/tmp'', Directory), (''/tmp/a.txt'', File ''hello''), (''/tmp/a.txt.gz'', File ''old'')]"
  let ?p = "\<lparr>operation = OpCompress, format = ''gzip'', sourcePath = ''/tmp/a.txt'',
         outputDirectory = None, outputFileName = None, compressionLevel = None,
         stripComponents = None, previewLength = None\<rparr>"
  have t: "compress_targetPath (sim 65536) (GzipHandler (sim 65536)) ?p = ''/tmp/a.txt.gz''"
    by (simp add: compress_targetPath_def GzipHandler_fields utils_eval sim_eval)
  have h: "getHandlerByFormat (registerHandlers (sim 65536)) (format ?p) = Some (GzipHandler (sim 65536))"
    by (simp add: getHandlerByFormat_registerHandlers lower_gzip)
  have a: "fileExists (sim 65536) ?w (sourcePath ?p)"
    "isDirectory (sim 65536) ?w (sourcePath ?p) \<or> isFile (sim 65536) ?w (sourcePath ?p)"
    "fileExists (sim 65536) ?w ''/tmp/a.txt.gz''"
    by (simp_all add: utils_eval sim_eval)
  from existing_output[OF h _ a(1,2)] t a(3)
  show ?thesis by simp
qed

section \<open>Paths with a parent-directory segment\<close>

text \<open>
  C1 at a failing input: \<open>normalizePath\<close> would reject \<open>../secret.gz\<close>, but neither
  \<open>execute\<close> nor the gzip handler calls it. The request is carried out: the output
  directory \<open>out\<close> is created and \<open>out/secret\<close> is written.
\<close>

theorem traversal_not_rejected:
  "normalizePath (sim 65536) ''../secret.gz''
     = Inl (Error (''Path traversal detected. Path cannot contain '' @ [CHR 0x22] @ ''..'' @ [CHR 0x22])
             None None)
   \<and> execute (sim 65536) (registerHandlers (sim 65536))
        \<lparr>operation = OpDecompress, format = ''gzip'', sourcePath = ''../secret.gz'',
         outputDirectory = Some ''out'', outputFileName = None, compressionLevel = None,
         stripComponents = None, previewLength = None\<rparr>
        [(''..'', Directory), (''../secret.gz'', File (sim_gzip ''top secret''))]
      = (Inr (createSuccessResult ''Successfully decompressed file to out/secret''
               [(''compressedSize'', JNumber 12), (''decompressedSize'', JNumber 10),
                (''expansionRatio'', JString ''83.33%''),
                (''sourcePath'', JString ''../secret.gz''), (''targetPath'', JString ''out/secret'')]),
         [(''..'', Directory), (''../secret.gz'', File (sim_gzip ''top secret'')),
          (''out'', Directory), (''out/secret'', File ''top secret'')])"
proof -
  have lower: "toLowerCase ''../secret.gz'' = ''../secret.gz''" by code_simp
  have ratio: "formatCompressionRatio 12 10 = ''83.33%''"
    by (simp add: formatCompressionRatio_def js_div_def toFixed2_rat_def fl_eval show_nat.simps digit_def)
  show ?thesis
    by (simp add: normalizePath_def execute_eval GzipHandler_decompress_def
        GzipHandler_decompress_try_def sim_eval utils_eval
        GzipHandler_isFormatValid_def lower lower_gzip ratio)
qed

text \<open>
  No operation of the unified tool consults \<open>path.normalize\<close>, on which the check of
  \<open>normalizePath\<close> rests: the outcome of every request is the same whatever
  \<open>path_normalize\<close> is.
\<close>

lemmas case_congs = option.case_cong sum.case_cong prod.case_cong if_cong

lemma new_Error_ignores_normalize: "new_Error (rt\<lparr>path_normalize := f\<rparr>) = new_Error rt"
  by (intro ext) (simp add: new_Error_def)

lemma fileExists_ignores_normalize: "fileExists (rt\<lparr>path_normalize := f\<rparr>) = fileExists rt"
  by (intro ext) (simp add: fileExists_def)

lemma isFile_ignores_normalize: "isFile (rt\<lparr>path_normalize := f\<rparr>) = isFile rt"
  by (intro ext) (simp add: isFile_def)

lemma isDirectory_ignores_normalize: "isDirectory (rt\<lparr>path_normalize := f\<rparr>) = isDirectory rt"
  by (intro ext) (simp add: isDirectory_def)

lemma ensureDir_ignores_normalize: "ensureDir (rt\<lparr>path_normalize := f\<rparr>) = ensureDir rt"
  by (intro ext)
    (simp add: ensureDir_def ensureDir_try_def isDirectory_ignores_normalize
      new_Error_ignores_normalize cong: case_congs)

lemma getFileSize_ignores_normalize: "getFileSize (rt\<lparr>path_normalize := f\<rparr>) = getFileSize rt"
  by (intro ext) (simp add: getFileSize_def new_Error_ignores_normalize cong: case_congs)

lemma resolveOutputPath_ignores_normalize:
  "resolveOutputPath (rt\<lparr>path_normalize := f\<rparr>) = resolveOutputPath rt"
  by (intro ext) (simp add: resolveOutputPath_def cong: case_congs)

lemma removeExtension_ignores_normalize:
  "removeExtension (rt\<lparr>path_normalize := f\<rparr>) = removeExtension rt"
  by (intro ext) (simp add: removeExtension_def getFileExtension_def cong: case_congs)

lemma decompress_targetPath_ignores_normalize:
  "decompress_targetPath (rt\<lparr>path_normalize := f\<rparr>) = decompress_targetPath rt"
  by (intro ext) (simp add: decompress_targetPath_def cong: case_congs)

lemma premature_close_ignores_normalize:
  "premature_close (rt\<lparr>path_normalize := f\<rparr>) = premature_close rt"
  by (simp add: premature_close_def)

lemmas utils_ignore_normalize = new_Error_ignores_normalize fileExists_ignores_normalize
  isFile_ignores_normalize isDirectory_ignores_normalize ensureDir_ignores_normalize
  getFileSize_ignores_normalize resolveOutputPath_ignores_normalize
  removeExtension_ignores_normalize decompress_targetPath_ignores_normalize
  premature_close_ignores_normalize

lemma compress_ignores_normalize:
  "GzipHandler_compress (rt\<lparr>path_normalize := f\<rparr>) = GzipHandler_compress rt"
  by (intro ext)
    (simp add: GzipHandler_compress_def GzipHandler_compress_try_def utils_ignore_normalize
      cong: case_congs)

lemma decompress_ignores_normalize:
  "GzipHandler_decompress (rt\<lparr>path_normalize := f\<rparr>) = GzipHandler_decompress rt"
  by (intro ext)
    (simp add: GzipHandler_decompress_def GzipHandler_decompress_try_def utils_ignore_normalize
      cong: case_congs)

lemma listContents_ignores_normalize:
  "GzipHandler_listContents (rt\<lparr>path_normalize := f\<rparr>) = GzipHandler_listContents rt"
  by (intro ext)
    (simp add: GzipHandler_listContents_def GzipHandler_listContents_try_def
      utils_ignore_normalize cong: case_congs)

lemma GzipHandler_ignores_normalize: "GzipHandler (rt\<lparr>path_normalize := f\<rparr>) = GzipHandler rt"
  by (simp add: GzipHandler_def compress_ignores_normalize decompress_ignores_normalize
      listContents_ignores_normalize)

lemma execute_compress_ignores_normalize:
  "execute_compress (rt\<lparr>path_normalize := f\<rparr>) = execute_compress rt"
  by (intro ext)
    (simp add: execute_compress_def compress_targetPath_def utils_ignore_normalize cong: case_congs)

lemma execute_decompress_ignores_normalize:
  "execute_decompress (rt\<lparr>path_normalize := f\<rparr>) = execute_decompress rt"
  by (intro ext)
    (simp add: execute_decompress_def utils_ignore_normalize cong: case_congs)

lemma execute_list_ignores_normalize:
  "execute_list (rt\<lparr>path_normalize := f\<rparr>) = execute_list rt"
  by (intro ext) (simp add: execute_list_def utils_ignore_normalize cong: case_congs)

lemma execute_ignores_normalize:
  "execute (rt\<lparr>path_normalize := f\<rparr>) (registerHandlers (rt\<lparr>path_normalize := f\<rparr>)) p w
     = execute rt (registerHandlers rt) p w"
proof -
  have "execute_try (rt\<lparr>path_normalize := f\<rparr>) (registerHandlers (rt\<lparr>path_normalize := f\<rparr>)) p w
      = execute_try rt (registerHandlers rt) p w"
    unfolding execute_try_def registerHandlers_def GzipHandler_ignores_normalize
      fileExists_ignores_normalize execute_compress_ignores_normalize
      execute_decompress_ignores_normalize execute_list_ignores_normalize ..
  then show ?thesis
    by (simp add: execute_def)
qed

section \<open>The preview of listContents\<close>

text \<open>
  C4 at a failing input: a payload of 20 bytes that the gunzip stream emits in chunks
  of 10 bytes, with \<open>previewLength = 10\<close>. The listener stops the streams when
  \<open>totalLength >= previewLength\<close> and the result is marked truncated when
  \<open>totalLength > previewLength\<close>: here \<open>totalLength = 10\<close>, the preview holds the first
  10 of the 20 bytes and \<open>isTruncated\<close> is false.
\<close>

theorem preview_boundary_not_truncated:
  "GzipHandler_listContents (sim 10) ''/tmp/data.json.gz'' \<lparr>lo_previewLength = Some 10\<rparr> False
     [(''/tmp'', Directory), (''/tmp/data.json.gz'', File (sim_gzip ''0123456789abcdefghij''))]
   = (Inr (createSuccessResult ''Content preview of /tmp/data.json.gz''
            [(''fileName'', JString ''data.json''),
             (''compressedSize'', JNumber 22),
             (''previewSize'', JNumber 10),
             (''preview'', JString ''0123456789''),
             (''isTruncated'', JBoolean False)]),
      [],
      [(''/tmp'', Directory), (''/tmp/data.json.gz'', File (sim_gzip ''0123456789abcdefghij''))])"
proof -
  have lower: "toLowerCase ''/tmp/data.json.gz'' = ''/tmp/data.json.gz''" by code_simp
  show ?thesis
    by (simp add: GzipHandler_listContents_def GzipHandler_listContents_try_def sim_eval utils_eval
        GzipHandler_isFormatValid_def lower premature_close_def list_pipeline_rethrown_def
        Buffer_concat_def)
qed

text \<open>
  What holds of the preview in general, when the gunzip stream ends without an error and
  no callback is passed: the bytes received before the streams were stopped are a prefix
  \<open>buf\<close> of the payload, \<open>previewSize\<close> is their number, the preview is the text that the
  first \<open>previewLength\<close> of them decode to (all of them when they are fewer), and
  \<open>isTruncated\<close> says whether their number exceeds \<open>previewLength\<close>. A payload not
  longer than \<open>previewLength\<close> is received whole; of a longer one at least
  \<open>previewLength\<close> bytes are received, and it is marked truncated unless a chunk ends
  exactly at \<open>previewLength\<close>.
\<close>

lemma gunzip_on_data_consumes:
  assumes "gunzip_on_data N S cb st tot cs = (st', tot', d, evs)"
    and "tot = length (concat st)"
  shows "(\<exists>k. st' = st @ take k cs) \<and> tot' = length (concat st')
       \<and> (d \<longrightarrow> N \<le> tot') \<and> (\<not> d \<longrightarrow> st' = st @ cs \<and> (cs \<noteq> [] \<longrightarrow> tot' < N))"
  using assms
proof (induction cs arbitrary: st tot st' tot' d evs)
  case Nil
  then show ?case by auto
next
  case (Cons c cs)
  show ?case
  proof (cases "N \<le> tot + length c")
    case True
    with Cons.prems have "st' = st @ [c]" "tot' = tot + length c" "d"
      by (auto simp: Let_def)
    moreover have "st @ [c] = st @ take 1 (c # cs)" by simp
    ultimately show ?thesis using True Cons.prems(2) by (metis concat_append concat.simps length_append append_Nil2)
  next
    case False
    obtain s t dd es where r: "gunzip_on_data N S cb (st @ [c]) (tot + length c) cs = (s, t, dd, es)"
      by (metis prod_cases4)
    with False Cons.prems have eq: "st' = s" "tot' = t" "d = dd"
      by (auto simp: Let_def)
    have inv: "tot + length c = length (concat (st @ [c]))"
      using Cons.prems(2) by simp
    from Cons.IH[OF r inv] eq
    have ih: "(\<exists>k. st' = (st @ [c]) @ take k cs)" "tot' = length (concat st')"
      "d \<longrightarrow> N \<le> tot'" "\<not> d \<longrightarrow> st' = (st @ [c]) @ cs \<and> (cs \<noteq> [] \<longrightarrow> tot' < N)"
      by auto
    from ih(1) obtain k where "st' = st @ take (Suc k) (c # cs)" by auto
    then have 1: "\<exists>k. st' = st @ take k (c # cs)" by blast
    have 2: "\<not> d \<longrightarrow> tot' < N"
    proof
      assume nd: "\<not> d"
      show "tot' < N"
      proof (cases "cs = []")
        case True
        with ih(4) nd have "st' = st @ [c]" by simp
        with ih(2) inv False show ?thesis by simp
      next
        case False
        with ih(4) nd show ?thesis by simp
      qed
    qed
    from 1 2 ih show ?thesis by auto
  qed
qed

lemma gunzip_on_data_silent:
  "gunzip_on_data N S False st tot cs = (st', tot', d, evs) \<Longrightarrow> evs = []"
proof (induction cs arbitrary: st tot st' tot' d evs)
  case Nil
  then show ?case by simp
next
  case (Cons c cs)
  show ?case
  proof (cases "N \<le> tot + length c")
    case True
    with Cons.prems show ?thesis by (simp add: Let_def)
  next
    case False
    obtain s t dd es where r: "gunzip_on_data N S False (st @ [c]) (tot + length c) cs = (s, t, dd, es)"
      by (metis prod_cases4)
    with False Cons.prems have "evs = es" by (simp add: Let_def)
    with Cons.IH[OF r] show ?thesis by simp
  qed
qed

lemma length_concat_take: "length (concat (take k cs)) \<le> length (concat cs)"
proof -
  have "concat cs = concat (take k cs) @ concat (drop k cs)"
    by (metis append_take_drop_id concat_append)
  then have "length (concat cs) = length (concat (take k cs)) + length (concat (drop k cs))"
    by (metis length_append)
  then show ?thesis by simp
qed

lemma listContents_preview:
  assumes "fileExists rt w src" and "isFile rt w src" and "GzipHandler_isFormatValid src"
    and "getFileSize rt w src = Inr S" and "gunzip_stream rt w src = (cs, None)"
  shows "\<exists>r tot buf.
           GzipHandler_listContents rt src opts False w = (Inr r, [], w) \<and> \<not> isError r
         \<and> prefix buf (concat cs) \<and> length buf = tot
         \<and> map_of (content_data (the (content r))) ''preview''
             = Some (JString (toString_utf8 rt buf 0 (min (or_number (lo_previewLength opts) 1000) tot)))
         \<and> map_of (content_data (the (content r))) ''previewSize'' = Some (JNumber tot)
         \<and> map_of (content_data (the (content r))) ''isTruncated''
             = Some (JBoolean (tot > or_number (lo_previewLength opts) 1000))
         \<and> tot \<le> length (concat cs)
         \<and> (length (concat cs) \<le> or_number (lo_previewLength opts) 1000 \<longrightarrow> tot = length (concat cs))
         \<and> (length (concat cs) > or_number (lo_previewLength opts) 1000
              \<longrightarrow> or_number (lo_previewLength opts) 1000 \<le> tot)"
proof -
  let ?N = "or_number (lo_previewLength opts) 1000"
  obtain st tot d evs where r: "gunzip_on_data ?N S False [] 0 cs = (st, tot, d, evs)"
    by (metis prod_cases4)
  have c: "\<exists>k. st = [] @ take k cs" "tot = length (concat st)"
    "d \<longrightarrow> ?N \<le> tot" "\<not> d \<longrightarrow> st = [] @ cs \<and> (cs \<noteq> [] \<longrightarrow> tot < ?N)"
    using gunzip_on_data_consumes[OF r] by auto
  from c(1) obtain k where st: "st = take k cs" by auto
  note tot = c(2) and d = c(3)
  have nd: "\<not> d \<longrightarrow> st = cs \<and> (cs \<noteq> [] \<longrightarrow> tot < ?N)"
    using c(4) by simp
  have evs: "evs = []"
    using r by (rule gunzip_on_data_silent)
  have le: "tot \<le> length (concat cs)"
    using st tot length_concat_take by simp
  have buf: "Buffer_concat st tot = concat st"
    using tot by (simp add: Buffer_concat_def)
  have "concat cs = concat (take k cs) @ concat (drop k cs)"
    by (metis append_take_drop_id concat_append)
  then have pre: "prefix (concat st) (concat cs)"
    using st by (metis prefixI)
  have small: "tot = length (concat cs)" if "length (concat cs) \<le> ?N"
  proof (cases d)
    case True
    with d le that show ?thesis by simp
  next
    case False
    with nd tot show ?thesis by simp
  qed
  have big: "?N \<le> tot" if "length (concat cs) > ?N"
  proof (cases d)
    case True
    with d show ?thesis by simp
  next
    case False
    with nd tot that show ?thesis by (cases "cs = []") auto
  qed
  have fail: "list_pipeline_rethrown (if d then Some (premature_close rt) else None) = None"
    by (simp add: list_pipeline_rethrown_def premature_close_def)
  have "GzipHandler_listContents rt src opts False w
      = (Inr (createSuccessResult (''Content preview of '' @ src)
           [(''fileName'', JString (removeExtension rt (path_basename rt src) (Some ''.gz''))),
            (''compressedSize'', JNumber S),
            (''previewSize'', JNumber tot),
            (''preview'', JString (toString_utf8 rt (concat st) 0 (min ?N tot))),
            (''isTruncated'', JBoolean (tot > ?N))]), [], w)"
    using assms r fail buf evs
    by (simp add: GzipHandler_listContents_def GzipHandler_listContents_try_def catch_all_def Let_def)
  then show ?thesis
    using le small big pre tot by (auto simp: createSuccessResult_def)
qed

section \<open>Progress events of a successful operation\<close>

text \<open>
  What holds of the events of a successful \<open>compress\<close> with a callback on a source
  that is not empty: there is at least one, their percentages never decrease, and every
  one of them has the stage \<open>compressing\<close>; the last one carries 100 percent when the
  read stream has delivered the whole source.
\<close>

lemma source_data_events_sorted:
  assumes "S \<noteq> 0"
  shows "sorted (map (\<lambda>ev. the (percentComplete ev))
           (formatProgress p (Some S) (Some stg) None # source_data_events S stg p lens))"
proof (induction lens arbitrary: p)
  case Nil
  show ?case by simp
next
  case (Cons len lens)
  have "the (percentComplete (formatProgress p (Some S) (Some stg) None))
          \<le> the (percentComplete (formatProgress (p + len) (Some S) (Some stg) None))"
    using assms by (intro percent_mono) simp_all
  with Cons.IH[of "p + len"] show ?case
    by (simp del: sorted_wrt.simps add: sorted2)
qed

lemma source_data_events_stage:
  "stg \<noteq> [] \<Longrightarrow> ev \<in> set (source_data_events S stg p lens) \<Longrightarrow> stage ev = stg"
  by (induction lens arbitrary: p) (auto simp: formatProgress_stage)

lemma source_data_events_Nil: "source_data_events S stg p lens = [] \<longleftrightarrow> lens = []"
  by (cases lens) simp_all

lemma source_data_events_last:
  "lens \<noteq> [] \<Longrightarrow> last (source_data_events S stg p lens)
     = formatProgress (p + sum_list lens) (Some S) (Some stg) None"
proof (induction lens arbitrary: p)
  case Nil
  then show ?case by simp
next
  case (Cons len lens)
  show ?case
  proof (cases "lens = []")
    case True
    then show ?thesis by simp
  next
    case False
    from Cons.IH[OF False, of "p + len"] False show ?thesis
      by (simp add: source_data_events_Nil add.assoc)
  qed
qed

lemma compress_events:
  assumes "GzipHandler_compress rt s t copts True w = (Inr r, evs, w')" and "\<not> isError r"
    and "getFileSize rt w s = Inr S" and "S \<noteq> 0"
  shows "evs \<noteq> [] \<and> sorted (map (\<lambda>ev. the (percentComplete ev)) evs)
       \<and> (\<forall>ev \<in> set evs. stage ev = ''compressing'')"
proof -
  from assms(1-3) obtain lens where
    "evs = formatProgress 0 (Some S) (Some ''compressing'') None
             # source_data_events S ''compressing'' 0 lens"
    by (auto simp: GzipHandler_compress_def GzipHandler_compress_try_def catch_all_def Let_def
        createErrorResult_def split: if_splits sum.splits option.splits prod.splits)
  then show ?thesis
    using source_data_events_sorted[OF assms(4), of 0 "''compressing''" lens]
      source_data_events_stage[of "''compressing''" _ S 0 lens]
    by (auto simp: formatProgress_stage)
qed

lemma compress_events_last:
  assumes "GzipHandler_compress rt s t copts True w = (Inr r, evs, w')" and "\<not> isError r"
    and "getFileSize rt w s = Inr S" and "S \<noteq> 0"
  shows "\<exists>lens w1. gzip_pipeline rt w1 s (or_number (co_compressionLevel copts) 6) t = (lens, None, w')
           \<and> evs = formatProgress 0 (Some S) (Some ''compressing'') None
                     # source_data_events S ''compressing'' 0 lens
           \<and> (sum_list lens = S \<longrightarrow>
                last evs = \<lparr>bytesProcessed = S, totalBytes = Some S, percentComplete = Some 100,
                             stage = ''compressing'', detail = None\<rparr>)"
proof -
  from assms(1-3) obtain lens w1 where
    p: "gzip_pipeline rt w1 s (or_number (co_compressionLevel copts) 6) t = (lens, None, w')"
    and e: "evs = formatProgress 0 (Some S) (Some ''compressing'') None
             # source_data_events S ''compressing'' 0 lens"
    by (auto simp: GzipHandler_compress_def GzipHandler_compress_try_def catch_all_def Let_def
        createErrorResult_def split: if_splits sum.splits option.splits prod.splits)
  have "last evs = \<lparr>bytesProcessed = S, totalBytes = Some S, percentComplete = Some 100,
                             stage = ''compressing'', detail = None\<rparr>"
    if "sum_list lens = S"
  proof -
    from that assms(4) have "lens \<noteq> []" by auto
    with e that show ?thesis
      using source_data_events_last[of lens S "''compressing''" 0] formatProgress_whole[OF assms(4), of "''compressing''"]
      by (simp add: source_data_events_Nil)
  qed
  with p e show ?thesis by blast
qed

text \<open>
  C5 at a failing input: \<open>compress\<close> of a file of 5 bytes with a progress callback
  succeeds and reports two events, 0 and 100 percent, both with the stage
  \<open>compressing\<close>; no event has the stage \<open>complete\<close>.
\<close>

theorem compress_last_stage:
  "fst (GzipHandler_compress (sim 65536) ''/tmp/a.txt'' ''/tmp/a.txt.gz''
          \<lparr>co_compressionLevel = Some 6, co_outputDirectory = None, co_outputFileName = None\<rparr> True
          [(''/tmp'', Directory), (''/tmp/a.txt'', File ''hello'')])
     = Inr (createSuccessResult ''Successfully compressed file to /tmp/a.txt.gz''
            [(''originalSize'', JNumber 5), (''compressedSize'', JNumber 7),
             (''compressionRatio'', JString ''140.00%''),
             (''sourcePath'', JString ''/tmp/a.txt''), (''targetPath'', JString ''/tmp/a.txt.gz'')])
   \<and> fst (snd (GzipHandler_compress (sim 65536) ''/tmp/a.txt'' ''/tmp/a.txt.gz''
          \<lparr>co_compressionLevel = Some 6, co_outputDirectory = None, co_outputFileName = None\<rparr> True
          [(''/tmp'', Directory), (''/tmp/a.txt'', File ''hello'')]))
     = [\<lparr>bytesProcessed = 0, totalBytes = Some 5, percentComplete = Some 0,
         stage = ''compressing'', detail = None\<rparr>,
        \<lparr>bytesProcessed = 5, totalBytes = Some 5, percentComplete = Some 100,
         stage = ''compressing'', detail = None\<rparr>]
   \<and> stage (last (fst (snd (GzipHandler_compress (sim 65536) ''/tmp/a.txt'' ''/tmp/a.txt.gz''
          \<lparr>co_compressionLevel = Some 6, co_outputDirectory = None, co_outputFileName = None\<rparr> True
          [(''/tmp'', Directory), (''/tmp/a.txt'', File ''hello'')])))) \<noteq> ''complete''"
  by (simp add: compress_run)

section \<open>The reported ratios\<close>

text \<open>
  What a successful \<open>compress\<close> and a successful \<open>decompress\<close> of the gzip handler
  went through: the size of the source was read first, the pipeline completed without an
  error, the size of the target was read in the world the pipeline left, and the ratio
  was made from the two sizes by \<open>formatCompressionRatio\<close>.
\<close>

lemma compress_success:
  assumes "GzipHandler_compress rt s t copts cb w = (Inr r, evs, w')" and "\<not> isError r"
  shows "\<exists>orig c lens w1.
           getFileSize rt w s = Inr orig
         \<and> ensureDir rt w (path_dirname rt t) = (None, w1)
         \<and> gzip_pipeline rt w1 s (or_number (co_compressionLevel copts) 6) t = (lens, None, w')
         \<and> getFileSize rt w' t = Inr c
         \<and> map_of (content_data (the (content r))) ''originalSize'' = Some (JNumber orig)
         \<and> map_of (content_data (the (content r))) ''compressedSize'' = Some (JNumber c)
         \<and> map_of (content_data (the (content r))) ''compressionRatio''
             = Some (JString (toFixed2 (js_mul (js_div c orig) 100) @ ''%''))"
  using assms
  by (auto simp: GzipHandler_compress_def GzipHandler_compress_try_def catch_all_def Let_def
      createErrorResult_def createSuccessResult_def formatCompressionRatio_def
      split: if_splits sum.splits option.splits prod.splits)

lemma decompress_success:
  assumes "GzipHandler_decompress rt s dir dopts cb w = (Inr r, evs, w')" and "\<not> isError r"
  shows "\<exists>c d lens w1.
           ensureDir rt w dir = (None, w1)
         \<and> getFileSize rt w1 s = Inr c
         \<and> gunzip_pipeline rt w1 s (decompress_targetPath rt s dir) = (lens, None, w')
         \<and> getFileSize rt w' (decompress_targetPath rt s dir) = Inr d
         \<and> map_of (content_data (the (content r))) ''compressedSize'' = Some (JNumber c)
         \<and> map_of (content_data (the (content r))) ''decompressedSize'' = Some (JNumber d)
         \<and> map_of (content_data (the (content r))) ''expansionRatio''
             = Some (JString (toFixed2 (js_mul (js_div d c) 100) @ ''%''))"
  using assms
  by (auto simp: GzipHandler_decompress_def GzipHandler_decompress_try_def catch_all_def Let_def
      createErrorResult_def createSuccessResult_def formatCompressionRatio_def
      split: if_splits sum.splits option.splits prod.splits)

text \<open>
  C8 as stated fails for \<open>decompress\<close> of the gzip handler: for 12 compressed and 10
  decompressed bytes it reports \<open>83.33%\<close>, which is \<open>10 / 12 * 100\<close>; the signed
  quantity \<open>(10 / 12 - 1) * 100\<close> is \<open>-16.67%\<close>, what the stand-alone \<open>unzip\<close> tool
  prints for these sizes.
\<close>

theorem expansion_ratio_counterexample:
  "fst (GzipHandler_decompress (sim 65536) ''/tmp/a.gz'' ''/tmp/out''
          \<lparr>do_stripComponents = Some 0, do_outputDirectory = None\<rparr> False
          [(''/tmp'', Directory), (''/tmp/a.gz'', File (sim_gzip ''top secret''))])
     = Inr (createSuccessResult ''Successfully decompressed file to /tmp/out/a''
            [(''compressedSize'', JNumber 12), (''decompressedSize'', JNumber 10),
             (''expansionRatio'', JString ''83.33%''),
             (''sourcePath'', JString ''/tmp/a.gz''), (''targetPath'', JString ''/tmp/out/a'')])
   \<and> extractionRatioFormatted 10 12 = ''-16.67%''"
  by (simp add: decompress_run extraction_10_12)

text \<open>
  C8, amended. For every successful operation of the gzip handler, the reported
  compression ratio is \<open>compressedSize / originalSize * 100\<close> in the \<open>compress\<close>
  direction and the reported expansion ratio is
  \<open>decompressedSize / compressedSize * 100\<close>, with nothing subtracted, in the
  \<open>decompress\<close> direction; both are computed after the pipeline has completed, from the
  size of the written file in the world the pipeline left and the size of the source.
  The quotient and the product are the binary64 operations and the report is the text
  \<open>toFixed(2)\<close> gives for the result, followed by a percent sign.
\<close>

theorem reported_ratios:
  "(GzipHandler_compress rt s t copts cb w = (Inr r, evs, w') \<and> \<not> isError r
    \<longrightarrow> (\<exists>orig c lens w1.
           getFileSize rt w s = Inr orig
         \<and> gzip_pipeline rt w1 s (or_number (co_compressionLevel copts) 6) t = (lens, None, w')
         \<and> getFileSize rt w' t = Inr c
         \<and> map_of (content_data (the (content r))) ''originalSize'' = Some (JNumber orig)
         \<and> map_of (content_data (the (content r))) ''compressedSize'' = Some (JNumber c)
         \<and> map_of (content_data (the (content r))) ''compressionRatio''
             = Some (JString (toFixed2 (js_mul (js_div c orig) 100) @ ''%''))))
   \<and> (GzipHandler_decompress rt s dir dopts cb w = (Inr r, evs, w') \<and> \<not> isError r
    \<longrightarrow> (\<exists>c d lens w1.
           getFileSize rt w1 s = Inr c
         \<and> gunzip_pipeline rt w1 s (decompress_targetPath rt s dir) = (lens, None, w')
         \<and> getFileSize rt w' (decompress_targetPath rt s dir) = Inr d
         \<and> map_of (content_data (the (content r))) ''compressedSize'' = Some (JNumber c)
         \<and> map_of (content_data (the (content r))) ''decompressedSize'' = Some (JNumber d)
         \<and> map_of (content_data (the (content r))) ''expansionRatio''
             = Some (JString (toFixed2 (js_mul (js_div d c) 100) @ ''%''))))"
proof (intro conjI impI)
  assume "GzipHandler_compress rt s t copts cb w = (Inr r, evs, w') \<and> \<not> isError r"
  then show "\<exists>orig c lens w1.
           getFileSize rt w s = Inr orig
         \<and> gzip_pipeline rt w1 s (or_number (co_compressionLevel copts) 6) t = (lens, None, w')
         \<and> getFileSize rt w' t = Inr c
         \<and> map_of (content_data (the (content r))) ''originalSize'' = Some (JNumber orig)
         \<and> map_of (content_data (the (content r))) ''compressedSize'' = Some (JNumber c)
         \<and> map_of (content_data (the (content r))) ''compressionRatio''
             = Some (JString (toFixed2 (js_mul (js_div c orig) 100) @ ''%''))"
    using compress_success[of rt s t copts cb w r evs w'] by blast
next
  assume "GzipHandler_decompress rt s dir dopts cb w = (Inr r, evs, w') \<and> \<not> isError r"
  then show "\<exists>c d lens w1.
           getFileSize rt w1 s = Inr c
         \<and> gunzip_pipeline rt w1 s (decompress_targetPath rt s dir) = (lens, None, w')
         \<and> getFileSize rt w' (decompress_targetPath rt s dir) = Inr d
         \<and> map_of (content_data (the (content r))) ''compressedSize'' = Some (JNumber c)
         \<and> map_of (content_data (the (content r))) ''decompressedSize'' = Some (JNumber d)
         \<and> map_of (content_data (the (content r))) ''expansionRatio''
             = Some (JString (toFixed2 (js_mul (js_div d c) 100) @ ''%''))"
    using decompress_success[of rt s dir dopts cb w r evs w'] by blast
qed

text \<open>
  The theorem at two runs: a file of 5 bytes compressed to 7 bytes is reported as
  \<open>140.00%\<close>, and a file of 12 bytes decompressed to 10 bytes as \<open>83.33%\<close>.
\<close>

theorem reported_ratios_witness:
  "(\<exists>r evs w'.
      GzipHandler_compress (sim 65536) ''/tmp/a.txt'' ''/tmp/a.txt.gz''
        \<lparr>co_compressionLevel = Some 6, co_outputDirectory = None, co_outputFileName = None\<rparr> True
        [(''/tmp'', Directory), (''/tmp/a.txt'', File ''hello'')] = (Inr r, evs, w')
    \<and> \<not> isError r
    \<and> getFileSize (sim 65536) [(''/tmp'', Directory), (''/tmp/a.txt'', File ''hello'')] ''/tmp/a.txt''
        = Inr 5
    \<and> getFileSize (sim 65536) w' ''/tmp/a.txt.gz'' = Inr 7
    \<and> map_of (content_data (the (content r))) ''compressionRatio''
        = Some (JString (toFixed2 (js_mul (js_div 7 5) 100) @ ''%''))
    \<and> toFixed2 (js_mul (js_div 7 5) 100) @ ''%'' = ''140.00%'')
   \<and> (\<exists>r evs w'.
      GzipHandler_decompress (sim 65536) ''/tmp/a.gz'' ''/tmp/out''
        \<lparr>do_stripComponents = Some 0, do_outputDirectory = None\<rparr> False
        [(''/tmp'', Directory), (''/tmp/a.gz'', File (sim_gzip ''top secret''))] = (Inr r, evs, w')
    \<and> \<not> isError r
    \<and> getFileSize (sim 65536) w' ''/tmp/a.gz'' = Inr 12
    \<and> getFileSize (sim 65536) w' ''/tmp/out/a'' = Inr 10
    \<and> map_of (content_data (the (content r))) ''expansionRatio''
        = Some (JString (toFixed2 (js_mul (js_div 10 12) 100) @ ''%''))
    \<and> toFixed2 (js_mul (js_div 10 12) 100) @ ''%'' = ''83.33%'')"
proof -
  let ?w = "[(''/tmp'', Directory), (''/tmp/a.txt'', File ''hello'')]"
  let ?w' = "[(''/tmp'', Directory), (''/tmp/a.txt'', File ''hello''),
       (''/tmp/a.txt.gz'', File (sim_gzip ''hello''))]"
  let ?v = "[(''/tmp'', Directory), (''/tmp/a.gz'', File (sim_gzip ''top secret''))]"
  let ?v' = "[(''/tmp'', Directory), (''/tmp/a.gz'', File (sim_gzip ''top secret'')),
       (''/tmp/out'', Directory), (''/tmp/out/a'', File ''top secret'')]"
  let ?copts = "\<lparr>co_compressionLevel = Some 6, co_outputDirectory = None, co_outputFileName = None\<rparr>"
  let ?dopts = "\<lparr>do_stripComponents = Some 0, do_outputDirectory = None\<rparr>"
  let ?r = "createSuccessResult ''Successfully compressed file to /tmp/a.txt.gz''
            [(''originalSize'', JNumber 5), (''compressedSize'', JNumber 7),
             (''compressionRatio'', JString ''140.00%''),
             (''sourcePath'', JString ''/tmp/a.txt''), (''targetPath'', JString ''/tmp/a.txt.gz'')]"
  let ?q = "createSuccessResult ''Successfully decompressed file to /tmp/out/a''
            [(''compressedSize'', JNumber 12), (''decompressedSize'', JNumber 10),
             (''expansionRatio'', JString ''83.33%''),
             (''sourcePath'', JString ''/tmp/a.gz''), (''targetPath'', JString ''/tmp/out/a'')]"
  have ok: "\<not> isError ?r" "\<not> isError ?q"
    by (simp_all add: createSuccessResult_def)
  have sizes: "getFileSize (sim 65536) ?w ''/tmp/a.txt'' = Inr 5"
    "getFileSize (sim 65536) ?w' ''/tmp/a.txt.gz'' = Inr 7"
    "getFileSize (sim 65536) ?v' ''/tmp/a.gz'' = Inr 12"
    "getFileSize (sim 65536) ?v' ''/tmp/out/a'' = Inr 10"
    by (simp_all add: utils_eval sim_eval)
  have tp: "decompress_targetPath (sim 65536) ''/tmp/a.gz'' ''/tmp/out'' = ''/tmp/out/a''"
    by (simp add: utils_eval sim_eval)
  have texts: "toFixed2 (js_mul (js_div 7 5) 100) @ ''%'' = ''140.00%''"
    "toFixed2 (js_mul (js_div 10 12) 100) @ ''%'' = ''83.33%''"
    by (simp_all add: js_div_def toFixed2_rat_def fl_eval show_nat.simps digit_def)
  from reported_ratios[where rt="sim 65536" and s="''/tmp/a.txt''" and t="''/tmp/a.txt.gz''"
      and cb=True and w="?w" and w'="?w'" and copts="?copts" and r="?r", THEN conjunct1]
    compress_run ok(1) sizes(1,2)
  have a: "map_of (content_data (the (content ?r))) ''compressionRatio''
        = Some (JString (toFixed2 (js_mul (js_div 7 5) 100) @ ''%''))"
    by auto
  from reported_ratios[where rt="sim 65536" and s="''/tmp/a.gz''" and dir="''/tmp/out''"
      and cb=False and w="?v" and w'="?v'" and dopts="?dopts" and r="?q", THEN conjunct2]
    decompress_run ok(2) sizes(3,4) tp
  have b: "map_of (content_data (the (content ?q))) ''expansionRatio''
        = Some (JString (toFixed2 (js_mul (js_div 10 12) 100) @ ''%''))"
    by (auto simp: createSuccessResult_def)
  show ?thesis
    using compress_run decompress_run ok sizes a b texts by auto
qed

end
